theory Spec2Isabelle
  imports Complex_Main "HOL-Library.AList"
begin

section \<open>Travel-rule calculator: data model\<close>

text \<open>
  The embedding follows \<^verbatim>\<open>src/utils/calculatorLogic.ts\<close> and \<^verbatim>\<open>src/types/index.ts\<close>.
  Conventions:
  \<^item> a JavaScript \<^verbatim>\<open>Set<string>\<close> is a duplicate-free list in insertion order
    (\<open>setAdd\<close> appends an absent element, \<open>newSet\<close> builds a set from an array,
    \<^verbatim>\<open>Array.from\<close> is the list itself, \<^verbatim>\<open>has\<close> is list membership);
  \<^item> an object used as a dictionary holds its own keys: the OR-group tables, whose
    iteration order \<^verbatim>\<open>Object.entries\<close> exposes, are association lists in insertion order;
    the resolution record \<^verbatim>\<open>orGroupMatches\<close> and the jurisdiction table are maps. Field
    keys and group identifiers come from the configuration and from the extractor
    (\<open>or_group_<n>\<close>) and are looked up among the own keys. A country code comes from the
    caller, so the lookup \<^verbatim>\<open>countryConfigs[code]\<close> is modelled with the prototype chain
    of the object literal: a code that is no own key but names a member of
    \<^verbatim>\<open>Object.prototype\<close> yields that member, which is truthy and is no configuration;
  \<^item> a condition on a string value (\<^verbatim>\<open>if (orGroupMatches[groupId])\<close>) is JavaScript
    truthiness: the entry exists and is not the empty string;
  \<^item> \<^verbatim>\<open>number\<close> amounts and thresholds are (finite) reals, compared with \<open>\<le>\<close>; the
    currency conversion (a floating-point division by a table entry) is a parameter of
    the orchestrator;
  \<^item> an exception is the left summand of the result: the thrown
    \<^verbatim>\<open>Error('Invalid country configuration')\<close>, and the \<^verbatim>\<open>TypeError\<close> that reading a
    property of \<^verbatim>\<open>undefined\<close> raises.
\<close>

datatype Logic = AND | OR

record RequirementGroup =
  group_fields :: "string list"
  logic :: Logic

record JurisdictionRequirements =
  requirements :: "RequirementGroup list"
  recommended_fields_opt :: "string list option"
  kyc_required_opt :: "bool option"
  aml_required_opt :: "bool option"
  wallet_attribution_opt :: "bool option"

record ThresholdTiers =
  below_threshold :: JurisdictionRequirements
  above_threshold :: JurisdictionRequirements

record CountryConfig =
  config_currency :: string
  threshold :: real
  individual :: ThresholdTiers
  company :: ThresholdTiers

type_synonym CountryConfigs = "string \<rightharpoonup> CountryConfig"

datatype CustomerType = Individual | Company

datatype Direction = OUT | IN

record TransactionInput =
  sumsub_vasp_country :: string
  counterparty_vasp_country :: string
  customer_type :: CustomerType
  transfer_direction :: Direction
  transfer_amount :: real

record FieldMatch =
  sumsubField :: string
  counterpartyField :: string
  isExactMatch :: bool
  isOrGroupMatch :: "bool option"
  orGroupId :: "string option"

record FieldAnalysis =
  missing_fields :: "string list"
  extra_fields :: "string list"
  matching_fields :: "string list"
  sumsub_sends_more :: "string list"
  counterparty_sends_more :: "string list"
  field_matches :: "FieldMatch list"
  or_group_matches :: "string \<rightharpoonup> string"

datatype ComplianceStatus =
  full_match | overcompliance | counterparty_may_request_more | sender_may_not_provide

record RequirementsSummary =
  required_fields :: "string list"
  recommended_fields :: "string list"
  requirement_groups :: "RequirementGroup list"
  kyc_required :: bool
  aml_required :: bool
  wallet_attribution :: bool

record ComplianceResult =
  sumsub_requirements :: RequirementsSummary
  counterparty_requirements :: RequirementsSummary
  compliance_status :: ComplianceStatus
  currency :: string
  threshold_met :: bool
  converted_amount :: real
  field_analysis :: FieldAnalysis

datatype error = InvalidCountryConfiguration | TypeError

section \<open>Insertion-ordered sets and decimal rendering\<close>

definition setAdd :: "'a \<Rightarrow> 'a list \<Rightarrow> 'a list" where
  "setAdd x s = (if x \<in> set s then s else s @ [x])"

definition newSet :: "'a list \<Rightarrow> 'a list" where
  "newSet xs = foldl (\<lambda>s x. setAdd x s) [] xs"

definition digitChar :: "nat \<Rightarrow> char" where
  "digitChar d = ''0123456789'' ! d"

text \<open>
  The decimal rendering of a counter inside a template literal (a counter of OR groups
  stays far below the size at which JavaScript prints an exponent).
\<close>

function natToString :: "nat \<Rightarrow> string" where
  "natToString n =
     (if n < 10 then [digitChar n] else natToString (n div 10) @ [digitChar (n mod 10)])"
  by pat_completeness auto
termination
  by (relation "measure (\<lambda>n. n)") auto

declare natToString.simps [simp del]

section \<open>Field extraction and OR group handling\<close>

record ExtractState =
  requiredFieldsSet :: "string list"
  orGroupsObj :: "(string \<times> string list) list"
  orGroupCounter :: nat

record ExtractedRequirements =
  requiredFields :: "string list"
  orGroups :: "(string \<times> string list) list"

definition groupIdOf :: "nat \<Rightarrow> string" where
  "groupIdOf n = ''or_group_'' @ natToString n"

text \<open>The body of the \<^verbatim>\<open>requirements.forEach\<close> callback.\<close>

definition extractStep :: "ExtractState \<Rightarrow> RequirementGroup \<Rightarrow> ExtractState" where
  "extractStep s g =
     (case logic g of
        AND \<Rightarrow> s\<lparr>requiredFieldsSet := foldl (\<lambda>r f. setAdd f r) (requiredFieldsSet s) (group_fields g)\<rparr>
      | OR \<Rightarrow>
          (let groupId = groupIdOf (orGroupCounter s)
           in s\<lparr>orGroupsObj := AList.update groupId (group_fields g) (orGroupsObj s),
                orGroupCounter := orGroupCounter s + 1\<rparr>))"

definition extractRequiredFieldsWithOrLogic :: "RequirementGroup list \<Rightarrow> ExtractedRequirements" where
  "extractRequiredFieldsWithOrLogic reqs =
     (let s = foldl extractStep
                \<lparr>requiredFieldsSet = [], orGroupsObj = [], orGroupCounter = 0\<rparr> reqs
      in \<lparr>requiredFields = requiredFieldsSet s, orGroups = orGroupsObj s\<rparr>)"

section \<open>Field analysis and matching\<close>

record MatchState =
  fieldMatches :: "FieldMatch list"
  matchedSumsubFields :: "string list"
  matchedCounterpartyFields :: "string list"
  orGroupMatches :: "string \<rightharpoonup> string"

definition initMatchState :: MatchState where
  "initMatchState =
     \<lparr>fieldMatches = [], matchedSumsubFields = [], matchedCounterpartyFields = [],
      orGroupMatches = Map.empty\<rparr>"

text \<open>Step 1: the callback of \<^verbatim>\<open>sumsubFields.forEach\<close>.\<close>

definition exactStep :: "string list \<Rightarrow> MatchState \<Rightarrow> string \<Rightarrow> MatchState" where
  "exactStep counterpartySet st sField =
     (if sField \<in> set counterpartySet
      then st\<lparr>fieldMatches := fieldMatches st @
                  [\<lparr>sumsubField = sField, counterpartyField = sField,
                    isExactMatch = True, isOrGroupMatch = None, orGroupId = None\<rparr>],
              matchedSumsubFields := setAdd sField (matchedSumsubFields st),
              matchedCounterpartyFields := setAdd sField (matchedCounterpartyFields st)\<rparr>
      else st)"

text \<open>The truthiness test \<^verbatim>\<open>orGroupMatches[groupId]\<close>.\<close>

definition alreadyMatched :: "MatchState \<Rightarrow> string \<Rightarrow> bool" where
  "alreadyMatched st groupId =
     (case orGroupMatches st groupId of None \<Rightarrow> False | Some v \<Rightarrow> v \<noteq> [])"

definition orMatch :: "string \<Rightarrow> string \<Rightarrow> FieldMatch" where
  "orMatch f groupId =
     \<lparr>sumsubField = f, counterpartyField = f, isExactMatch = True,
      isOrGroupMatch = Some True, orGroupId = Some groupId\<rparr>"

text \<open>
  The \<^verbatim>\<open>for (const orField of orFields)\<close> loop with its \<^verbatim>\<open>break\<close>. Steps 2 and 3 of the
  source contain the same loop; they differ only in the set that is consulted
  (\<^verbatim>\<open>sumsubSet\<close> in step 2, \<^verbatim>\<open>counterpartySet\<close> in step 3), which is the first argument.
  Both test \<^verbatim>\<open>matchedSumsubFields\<close>.
\<close>

fun scanOrFields :: "string list \<Rightarrow> string \<Rightarrow> string list \<Rightarrow> MatchState \<Rightarrow> MatchState" where
  "scanOrFields otherSet groupId [] st = st"
| "scanOrFields otherSet groupId (orField # rest) st =
     (if orField \<in> set otherSet \<and> orField \<notin> set (matchedSumsubFields st)
      then st\<lparr>fieldMatches := fieldMatches st @ [orMatch orField groupId],
              matchedSumsubFields := setAdd orField (matchedSumsubFields st),
              matchedCounterpartyFields := setAdd orField (matchedCounterpartyFields st),
              orGroupMatches := (orGroupMatches st)(groupId \<mapsto> orField)\<rparr>
      else scanOrFields otherSet groupId rest st)"

definition isDeuOrGroup :: "string list \<Rightarrow> bool" where
  "isDeuOrGroup orFields =
     (length orFields = 4 \<and>
      ''id_document_number'' \<in> set orFields \<and>
      ''customer_id'' \<in> set orFields \<and>
      ''date_of_birth'' \<in> set orFields \<and>
      ''birthplace'' \<in> set orFields)"

definition checkDeuCombinationMatch :: "string list \<Rightarrow> string list \<Rightarrow> bool" where
  "checkDeuCombinationMatch fieldSet orFields =
     (''date_of_birth'' \<in> set fieldSet \<and> ''birthplace'' \<in> set fieldSet)"

text \<open>The block "Special handling for DEU combination fields".\<close>

definition deuCombination :: "string list \<Rightarrow> string \<Rightarrow> string list \<Rightarrow> MatchState \<Rightarrow> MatchState" where
  "deuCombination otherSet groupId orFields st =
     (if \<not> alreadyMatched st groupId \<and> isDeuOrGroup orFields
      then (if checkDeuCombinationMatch otherSet orFields
            then st\<lparr>fieldMatches := fieldMatches st @
                        [orMatch ''date_of_birth'' groupId, orMatch ''birthplace'' groupId],
                    matchedSumsubFields :=
                        setAdd ''birthplace'' (setAdd ''date_of_birth'' (matchedSumsubFields st)),
                    matchedCounterpartyFields :=
                        setAdd ''birthplace'' (setAdd ''date_of_birth'' (matchedCounterpartyFields st)),
                    orGroupMatches := (orGroupMatches st)(groupId \<mapsto> ''date_of_birth + birthplace'')\<rparr>
            else st)
      else st)"

text \<open>The callback of \<^verbatim>\<open>Object.entries(...).forEach\<close> in steps 2 and 3.\<close>

definition orGroupStep :: "string list \<Rightarrow> MatchState \<Rightarrow> string \<times> string list \<Rightarrow> MatchState" where
  "orGroupStep otherSet st entry =
     (case entry of (groupId, orFields) \<Rightarrow>
        if alreadyMatched st groupId then st
        else deuCombination otherSet groupId orFields (scanOrFields otherSet groupId orFields st))"

definition semanticMappings :: "(string \<times> string list) list" where
  "semanticMappings =
   [(''full_name'', [''company_name'', ''registered_name'']),
    (''company_name'', [''full_name'', ''registered_name'']),
    (''registered_name'', [''full_name'', ''company_name'']),
    (''residential_address'', [''company_address'', ''registered_address'']),
    (''company_address'', [''residential_address'', ''registered_address'']),
    (''registered_address'', [''residential_address'', ''company_address'']),
    (''id_document_number'', [''company_registration_number'', ''registration_number'', ''lei_or_equivalent'']),
    (''company_registration_number'', [''id_document_number'', ''registration_number'', ''lei_or_equivalent'']),
    (''registration_number'', [''id_document_number'', ''company_registration_number'', ''lei_or_equivalent'']),
    (''lei_or_equivalent'', [''id_document_number'', ''company_registration_number'', ''registration_number'']),
    (''customer_id'', [''internal_id'', ''client_id'', ''account_id'']),
    (''internal_id'', [''customer_id'', ''client_id'', ''account_id'']),
    (''client_id'', [''customer_id'', ''internal_id'', ''account_id'']),
    (''account_id'', [''customer_id'', ''internal_id'', ''client_id'']),
    (''date_of_birth'', [''birth_date'', ''dob'']),
    (''birth_date'', [''date_of_birth'', ''dob'']),
    (''dob'', [''date_of_birth'', ''birth_date'']),
    (''birthplace'', [''birth_location'', ''place_of_birth'']),
    (''birth_location'', [''birthplace'', ''place_of_birth'']),
    (''place_of_birth'', [''birthplace'', ''birth_location'']),
    (''phone_number'', [''telephone'', ''mobile_number'', ''contact_number'']),
    (''telephone'', [''phone_number'', ''mobile_number'', ''contact_number'']),
    (''mobile_number'', [''phone_number'', ''telephone'', ''contact_number'']),
    (''contact_number'', [''phone_number'', ''telephone'', ''mobile_number'']),
    (''email_address'', [''email'', ''electronic_mail'']),
    (''email'', [''email_address'', ''electronic_mail'']),
    (''electronic_mail'', [''email_address'', ''email'']),
    (''wallet_address'', [''crypto_address'', ''blockchain_address'', ''virtual_asset_address'', ''dlt_address'']),
    (''crypto_address'', [''wallet_address'', ''blockchain_address'', ''virtual_asset_address'', ''dlt_address'']),
    (''blockchain_address'', [''wallet_address'', ''crypto_address'', ''virtual_asset_address'', ''dlt_address'']),
    (''virtual_asset_address'', [''wallet_address'', ''crypto_address'', ''blockchain_address'', ''dlt_address'']),
    (''dlt_address'', [''wallet_address'', ''crypto_address'', ''blockchain_address'', ''virtual_asset_address'']),
    (''nationality'', [''citizenship'', ''country_of_citizenship'']),
    (''citizenship'', [''nationality'', ''country_of_citizenship'']),
    (''country_of_citizenship'', [''nationality'', ''citizenship'']),
    (''occupation'', [''profession'', ''job_title'', ''employment'']),
    (''profession'', [''occupation'', ''job_title'', ''employment'']),
    (''job_title'', [''occupation'', ''profession'', ''employment'']),
    (''employment'', [''occupation'', ''profession'', ''job_title'']),
    (''authorized_representative'', [''signatory'', ''authorized_person'', ''legal_representative'']),
    (''signatory'', [''authorized_representative'', ''authorized_person'', ''legal_representative'']),
    (''authorized_person'', [''authorized_representative'', ''signatory'', ''legal_representative'']),
    (''legal_representative'', [''authorized_representative'', ''signatory'', ''authorized_person''])]"

definition possibleMatches :: "string \<Rightarrow> string list" where
  "possibleMatches sField =
     (case map_of semanticMappings sField of None \<Rightarrow> [] | Some ms \<Rightarrow> ms)"

definition findSemanticMatches :: "string list \<Rightarrow> string list \<Rightarrow> FieldMatch list" where
  "findSemanticMatches sumsubFields counterpartyFields =
     concat (map (\<lambda>sField.
                map (\<lambda>possibleMatch.
                       \<lparr>sumsubField = sField, counterpartyField = possibleMatch,
                        isExactMatch = False, isOrGroupMatch = None, orGroupId = None\<rparr>)
                    (filter (\<lambda>possibleMatch. possibleMatch \<in> set counterpartyFields)
                            (possibleMatches sField)))
             sumsubFields)"

text \<open>Step 4: the callback of \<^verbatim>\<open>semanticMatches.forEach\<close>.\<close>

definition semanticStep :: "MatchState \<Rightarrow> FieldMatch \<Rightarrow> MatchState" where
  "semanticStep st m =
     (if sumsubField m \<notin> set (matchedSumsubFields st) \<and>
         counterpartyField m \<notin> set (matchedCounterpartyFields st)
      then st\<lparr>fieldMatches := fieldMatches st @ [m],
              matchedSumsubFields := setAdd (sumsubField m) (matchedSumsubFields st),
              matchedCounterpartyFields := setAdd (counterpartyField m) (matchedCounterpartyFields st)\<rparr>
      else st)"

definition afterStep1 :: "string list \<Rightarrow> string list \<Rightarrow> MatchState" where
  "afterStep1 sumsubFields counterpartyFields =
     foldl (exactStep (newSet counterpartyFields)) initMatchState sumsubFields"

definition afterStep2 ::
  "string list \<Rightarrow> string list \<Rightarrow> (string \<times> string list) list \<Rightarrow> MatchState" where
  "afterStep2 sumsubFields counterpartyFields counterpartyOrGroups =
     foldl (orGroupStep (newSet sumsubFields))
           (afterStep1 sumsubFields counterpartyFields) counterpartyOrGroups"

definition afterStep3 ::
  "string list \<Rightarrow> string list \<Rightarrow> (string \<times> string list) list \<Rightarrow>
   (string \<times> string list) list \<Rightarrow> MatchState" where
  "afterStep3 sumsubFields counterpartyFields sumsubOrGroups counterpartyOrGroups =
     foldl (orGroupStep (newSet counterpartyFields))
           (afterStep2 sumsubFields counterpartyFields counterpartyOrGroups) sumsubOrGroups"

definition afterStep4 ::
  "string list \<Rightarrow> string list \<Rightarrow> (string \<times> string list) list \<Rightarrow>
   (string \<times> string list) list \<Rightarrow> MatchState" where
  "afterStep4 sumsubFields counterpartyFields sumsubOrGroups counterpartyOrGroups =
     foldl semanticStep
           (afterStep3 sumsubFields counterpartyFields sumsubOrGroups counterpartyOrGroups)
           (findSemanticMatches sumsubFields counterpartyFields)"

definition analyzeFieldDifferencesWithOrGroups ::
  "string list \<Rightarrow> string list \<Rightarrow> (string \<times> string list) list \<Rightarrow>
   (string \<times> string list) list \<Rightarrow> Direction \<Rightarrow> FieldAnalysis" where
  "analyzeFieldDifferencesWithOrGroups sumsubFields counterpartyFields sumsubOrGroups
       counterpartyOrGroups transferDirection =
     (let st = afterStep4 sumsubFields counterpartyFields sumsubOrGroups counterpartyOrGroups;
          matching = matchedSumsubFields st
      in case transferDirection of
           OUT \<Rightarrow>
             (let missing = filter (\<lambda>field. field \<notin> set (matchedCounterpartyFields st)) counterpartyFields;
                  extra = filter (\<lambda>field. field \<notin> set (matchedSumsubFields st)) sumsubFields
              in \<lparr>missing_fields = missing, extra_fields = extra, matching_fields = matching,
                  sumsub_sends_more = extra, counterparty_sends_more = [],
                  field_matches = fieldMatches st, or_group_matches = orGroupMatches st\<rparr>)
         | IN \<Rightarrow>
             (let missing = filter (\<lambda>field. field \<notin> set (matchedSumsubFields st)) sumsubFields;
                  extra = filter (\<lambda>field. field \<notin> set (matchedCounterpartyFields st)) counterpartyFields
              in \<lparr>missing_fields = missing, extra_fields = extra, matching_fields = matching,
                  sumsub_sends_more = [], counterparty_sends_more = extra,
                  field_matches = fieldMatches st, or_group_matches = orGroupMatches st\<rparr>))"

section \<open>Compliance status determination\<close>

definition determineComplianceStatus ::
  "string list \<Rightarrow> string list \<Rightarrow> Direction \<Rightarrow> ComplianceStatus" where
  "determineComplianceStatus sumsubFields counterpartyFields transferDirection =
     (let sumsubFieldsSet = newSet sumsubFields;
          counterpartyFieldsSet = newSet counterpartyFields;
          sumsubHasAll = list_all (\<lambda>field. field \<in> set sumsubFieldsSet) counterpartyFieldsSet;
          counterpartyHasAll = list_all (\<lambda>field. field \<in> set counterpartyFieldsSet) sumsubFieldsSet
      in if sumsubHasAll \<and> counterpartyHasAll \<and> length sumsubFields = length counterpartyFields
         then full_match
         else case transferDirection of
                OUT \<Rightarrow>
                  (if sumsubHasAll
                   then (if length sumsubFields > length counterpartyFields
                         then overcompliance else full_match)
                   else counterparty_may_request_more)
              | IN \<Rightarrow>
                  (if counterpartyHasAll
                   then (if length counterpartyFields > length sumsubFields
                         then overcompliance else full_match)
                   else sender_may_not_provide))"

section \<open>Main calculation function\<close>

definition byCustomerType :: "CountryConfig \<Rightarrow> CustomerType \<Rightarrow> ThresholdTiers" where
  "byCustomerType c t = (case t of Individual \<Rightarrow> individual c | Company \<Rightarrow> company c)"

definition summarize :: "JurisdictionRequirements \<Rightarrow> string list \<Rightarrow> RequirementsSummary" where
  "summarize reqs fieldsRequired =
     \<lparr>required_fields = fieldsRequired,
      recommended_fields = (case recommended_fields_opt reqs of None \<Rightarrow> [] | Some r \<Rightarrow> r),
      requirement_groups = requirements reqs,
      kyc_required = (case kyc_required_opt reqs of None \<Rightarrow> False | Some b \<Rightarrow> b),
      aml_required = (case aml_required_opt reqs of None \<Rightarrow> False | Some b \<Rightarrow> b),
      wallet_attribution = (case wallet_attribution_opt reqs of None \<Rightarrow> False | Some b \<Rightarrow> b)\<rparr>"

text \<open>
  The lookup \<^verbatim>\<open>countryConfigs[code]\<close> on the object literal: an own key yields its
  configuration; otherwise a name of a member of \<^verbatim>\<open>Object.prototype\<close> yields that
  member (a function, or the prototype object itself for \<^verbatim>\<open>__proto__\<close>); any other
  code yields \<^verbatim>\<open>undefined\<close>.
\<close>

definition objectPrototypeKeys :: "string list" where
  "objectPrototypeKeys =
     [''constructor'', ''__defineGetter__'', ''__defineSetter__'', ''hasOwnProperty'',
      ''__lookupGetter__'', ''__lookupSetter__'', ''isPrototypeOf'', ''propertyIsEnumerable'',
      ''toString'', ''valueOf'', ''__proto__'', ''toLocaleString'']"

datatype ConfigLookup = Undefined | Inherited | Own CountryConfig

definition lookupConfig :: "CountryConfigs \<Rightarrow> string \<Rightarrow> ConfigLookup" where
  "lookupConfig countryConfigs code =
     (case countryConfigs code of
        Some c \<Rightarrow> Own c
      | None \<Rightarrow> (if code \<in> set objectPrototypeKeys then Inherited else Undefined))"

text \<open>The test \<^verbatim>\<open>!config\<close> of the guard: only \<^verbatim>\<open>undefined\<close> is falsy.\<close>

fun falsyConfig :: "ConfigLookup \<Rightarrow> bool" where
  "falsyConfig Undefined = True"
| "falsyConfig Inherited = False"
| "falsyConfig (Own c) = False"

text \<open>
  After the guard, an inherited member has no property \<^verbatim>\<open>threshold\<close> (the comparison with
  \<^verbatim>\<open>undefined\<close> is false and raises nothing) and no property named by the customer type,
  so reading \<^verbatim>\<open>.below_threshold\<close> of it raises the \<^verbatim>\<open>TypeError\<close>: for the sumsub side
  when its rule set is selected, else for the counterparty's.
\<close>

definition calculateCompliance ::
  "CountryConfigs \<Rightarrow> (real \<Rightarrow> string \<Rightarrow> real) \<Rightarrow> TransactionInput \<Rightarrow> error + ComplianceResult" where
  "calculateCompliance countryConfigs convertToUSD input =
     (let sumsubLookup = lookupConfig countryConfigs (sumsub_vasp_country input);
          counterpartyLookup = lookupConfig countryConfigs (counterparty_vasp_country input)
      in if falsyConfig sumsubLookup \<or> falsyConfig counterpartyLookup
         then Inl InvalidCountryConfiguration
         else
     (case sumsubLookup of
        Undefined \<Rightarrow> Inl TypeError
      | Inherited \<Rightarrow> Inl TypeError
      | Own sumsubConfig \<Rightarrow>
     (case counterpartyLookup of
        Undefined \<Rightarrow> Inl TypeError
      | Inherited \<Rightarrow> Inl TypeError
      | Own counterpartyConfig \<Rightarrow>
         (let sumsubThresholdMet = (transfer_amount input \<ge> threshold sumsubConfig);
              counterpartyThresholdMet = (transfer_amount input \<ge> threshold counterpartyConfig);
              sumsubReqs =
                (if sumsubThresholdMet
                 then above_threshold (byCustomerType sumsubConfig (customer_type input))
                 else below_threshold (byCustomerType sumsubConfig (customer_type input)));
              counterpartyReqs =
                (if counterpartyThresholdMet
                 then above_threshold (byCustomerType counterpartyConfig (customer_type input))
                 else below_threshold (byCustomerType counterpartyConfig (customer_type input)));
              sumsubEx = extractRequiredFieldsWithOrLogic (requirements sumsubReqs);
              counterpartyEx = extractRequiredFieldsWithOrLogic (requirements counterpartyReqs);
              fieldAnalysis =
                analyzeFieldDifferencesWithOrGroups
                  (requiredFields sumsubEx) (requiredFields counterpartyEx)
                  (orGroups sumsubEx) (orGroups counterpartyEx) (transfer_direction input);
              complianceStatus =
                determineComplianceStatus
                  (requiredFields sumsubEx) (requiredFields counterpartyEx) (transfer_direction input);
              amountInUSD = convertToUSD (transfer_amount input) (config_currency sumsubConfig)
          in Inr \<lparr>sumsub_requirements = summarize sumsubReqs (requiredFields sumsubEx),
                  counterparty_requirements = summarize counterpartyReqs (requiredFields counterpartyEx),
                  compliance_status = complianceStatus,
                  currency = config_currency sumsubConfig,
                  threshold_met = sumsubThresholdMet,
                  converted_amount = amountInUSD,
                  field_analysis = fieldAnalysis\<rparr>))))"

section \<open>The jurisdiction table\<close>

text \<open>
  The table of \<^verbatim>\<open>countryConfigs\<close> as the repository ships it (EU, ZAF, DEU). The
  orchestrator takes the table as an argument; the shipped table is used for the
  concrete evaluations below.
\<close>

definition andGroup :: "string list \<Rightarrow> RequirementGroup" where
  "andGroup fs = \<lparr>group_fields = fs, logic = AND\<rparr>"

definition orGroup :: "string list \<Rightarrow> RequirementGroup" where
  "orGroup fs = \<lparr>group_fields = fs, logic = OR\<rparr>"

definition ruleSet :: "RequirementGroup list \<Rightarrow> bool \<Rightarrow> JurisdictionRequirements" where
  "ruleSet groups kyc =
     \<lparr>requirements = groups, recommended_fields_opt = Some [], kyc_required_opt = Some kyc,
      aml_required_opt = Some True, wallet_attribution_opt = Some True\<rparr>"

definition deuIndividual :: JurisdictionRequirements where
  "deuIndividual =
     ruleSet [andGroup [''full_name'', ''residential_address'', ''wallet_address''],
              orGroup [''id_document_number'', ''customer_id'', ''date_of_birth'', ''birthplace'']] True"

definition deuCompany :: JurisdictionRequirements where
  "deuCompany =
     ruleSet [andGroup [''company_name'', ''company_address'', ''wallet_address'', ''lei_or_equivalent'']] True"

definition deuConfig :: CountryConfig where
  "deuConfig =
     \<lparr>config_currency = ''EUR'', threshold = 0,
      individual = \<lparr>below_threshold = deuIndividual, above_threshold = deuIndividual\<rparr>,
      company = \<lparr>below_threshold = deuCompany, above_threshold = deuCompany\<rparr>\<rparr>"

definition euConfig :: CountryConfig where
  "euConfig =
     \<lparr>config_currency = ''EUR'', threshold = 1000,
      individual =
        \<lparr>below_threshold = ruleSet [andGroup [''full_name'', ''wallet_address'', ''customer_id'']] False,
         above_threshold = ruleSet [andGroup [''full_name'', ''id_document_number'', ''date_of_birth'',
                                              ''residential_address'', ''wallet_address'', ''customer_id'']] True\<rparr>,
      company =
        \<lparr>below_threshold = ruleSet [andGroup [''company_name'', ''wallet_address'', ''customer_id'']] False,
         above_threshold = ruleSet [andGroup [''company_name'', ''company_registration_number'',
                                              ''company_address'', ''wallet_address'', ''customer_id'']] True\<rparr>\<rparr>"

definition zafConfig :: CountryConfig where
  "zafConfig =
     \<lparr>config_currency = ''ZAR'', threshold = 5000,
      individual =
        \<lparr>below_threshold = ruleSet [andGroup [''full_name'', ''wallet_address'', ''customer_id'']] False,
         above_threshold = ruleSet [andGroup [''full_name'', ''wallet_address'', ''id_document_number'',
                                              ''date_of_birth'', ''residential_address'', ''customer_id'']] True\<rparr>,
      company =
        \<lparr>below_threshold = ruleSet [andGroup [''company_name'', ''wallet_address'', ''customer_id'']] False,
         above_threshold = ruleSet [andGroup [''company_name'', ''company_registration_number'',
                                              ''company_address'', ''wallet_address'', ''customer_id'']] True\<rparr>\<rparr>"

definition countryConfigs :: CountryConfigs where
  "countryConfigs = [''EU'' \<mapsto> euConfig, ''ZAF'' \<mapsto> zafConfig, ''DEU'' \<mapsto> deuConfig]"

text \<open>
  The rule set the orchestrator selects for one party; the source writes the conditional
  out twice, once per party.
\<close>

definition selectedRequirements :: "CountryConfig \<Rightarrow> TransactionInput \<Rightarrow> JurisdictionRequirements" where
  "selectedRequirements c input =
     (if transfer_amount input \<ge> threshold c
      then above_threshold (byCustomerType c (customer_type input))
      else below_threshold (byCustomerType c (customer_type input)))"

text \<open>A variant of the German configuration whose individual rule sets have the same
  mandatory fields in another order and no OR group.\<close>

definition deuConfigAndOnly :: CountryConfig where
  "deuConfigAndOnly =
     \<lparr>config_currency = ''EUR'', threshold = 0,
      individual =
        \<lparr>below_threshold = ruleSet [andGroup [''wallet_address'', ''residential_address'', ''full_name'']] True,
         above_threshold = ruleSet [andGroup [''wallet_address'', ''residential_address'', ''full_name'']] True\<rparr>,
      company = \<lparr>below_threshold = deuCompany, above_threshold = deuCompany\<rparr>\<rparr>"

section \<open>Auxiliary notions for the proofs\<close>

text \<open>
  A field that the scan of an OR group may take, and the state the scan leaves when it
  takes a field.
\<close>

definition claimable :: "string list \<Rightarrow> MatchState \<Rightarrow> string \<Rightarrow> bool" where
  "claimable otherSet st f = (f \<in> set otherSet \<and> f \<notin> set (matchedSumsubFields st))"

definition resolveWith :: "string \<Rightarrow> string \<Rightarrow> MatchState \<Rightarrow> MatchState" where
  "resolveWith f groupId st =
     st\<lparr>fieldMatches := fieldMatches st @ [orMatch f groupId],
        matchedSumsubFields := setAdd f (matchedSumsubFields st),
        matchedCounterpartyFields := setAdd f (matchedCounterpartyFields st),
        orGroupMatches := (orGroupMatches st)(groupId \<mapsto> f)\<rparr>"

text \<open>Both claimed sets hold the same fields in the same order.\<close>

definition claimsAgree :: "MatchState \<Rightarrow> bool" where
  "claimsAgree st = (matchedSumsubFields st = matchedCounterpartyFields st)"

text \<open>The extractor has handed out the identifiers \<open>or_group_0\<close>, \<open>or_group_1\<close>, ... in order.\<close>

definition idsInOrder :: "ExtractState \<Rightarrow> bool" where
  "idsInOrder s = (map fst (orGroupsObj s) = map groupIdOf [0..<orGroupCounter s])"

text \<open>
  Every recorded resolution is a field of a group with that identifier, or the composite
  label of a four-field identity group with that identifier.
\<close>

definition explained :: "(string \<times> string list) list \<Rightarrow> MatchState \<Rightarrow> bool" where
  "explained groups st =
     (\<forall>groupId v. orGroupMatches st groupId = Some v \<longrightarrow>
        (\<exists>orFields. (groupId, orFields) \<in> set groups \<and>
           (v \<in> set orFields \<or> v = ''date_of_birth + birthplace'' \<and> isDeuOrGroup orFields)))"

section \<open>Basic facts\<close>

lemma set_setAdd [simp]: "set (setAdd x s) = insert x (set s)"
  by (auto simp: setAdd_def)

lemma distinct_setAdd [simp]: "distinct (setAdd x s) = distinct s"
  by (auto simp: setAdd_def)

lemma set_foldl_setAdd [simp]: "set (foldl (\<lambda>s x. setAdd x s) acc xs) = set acc \<union> set xs"
  by (induction xs arbitrary: acc) auto

lemma distinct_foldl_setAdd [simp]: "distinct (foldl (\<lambda>s x. setAdd x s) acc xs) = distinct acc"
  by (induction xs arbitrary: acc) auto

lemma set_newSet [simp]: "set (newSet xs) = set xs"
  by (simp add: newSet_def)

lemma distinct_newSet [simp]: "distinct (newSet xs)"
  by (simp add: newSet_def)

lemma natToString_0: "natToString 0 = ''0''"
  by (simp add: natToString.simps digitChar_def)

lemma natToString_1: "natToString (Suc 0) = ''1''"
  by (simp add: natToString.simps digitChar_def)

lemmas eval_simps =
  countryConfigs_def zafConfig_def deuConfig_def euConfig_def deuIndividual_def deuCompany_def
  ruleSet_def andGroup_def orGroup_def selectedRequirements_def byCustomerType_def summarize_def
  extractRequiredFieldsWithOrLogic_def extractStep_def setAdd_def groupIdOf_def
  natToString_0 natToString_1

section \<open>Extraction\<close>

lemma extractStep_distinct:
  "distinct (requiredFieldsSet s) \<Longrightarrow> distinct (requiredFieldsSet (extractStep s g))"
  by (cases "logic g") (simp_all add: extractStep_def Let_def)

lemma foldl_extractStep_distinct:
  "distinct (requiredFieldsSet s) \<Longrightarrow> distinct (requiredFieldsSet (foldl extractStep s gs))"
  by (induction gs arbitrary: s) (simp_all add: extractStep_distinct)

lemma distinct_requiredFields:
  "distinct (requiredFields (extractRequiredFieldsWithOrLogic reqs))"
  by (simp add: extractRequiredFieldsWithOrLogic_def Let_def foldl_extractStep_distinct)

subsection \<open>Identifiers of the extracted OR groups\<close>

lemma less_10_cases:
  "d < (10::nat) \<Longrightarrow> d = 0 \<or> d = 1 \<or> d = 2 \<or> d = 3 \<or> d = 4 \<or> d = 5 \<or> d = 6 \<or> d = 7 \<or> d = 8 \<or> d = 9"
  by arith

lemma digitChar_inj:
  assumes "a < 10" "b < 10" "digitChar a = digitChar b"
  shows "a = b"
  using less_10_cases [OF assms(1)] less_10_cases [OF assms(2)] assms(3)
  by (elim disjE) (simp_all add: digitChar_def)

lemma natToString_nonempty: "natToString n \<noteq> []"
  by (subst natToString.simps) simp

lemma natToString_inj: "natToString n = natToString m \<Longrightarrow> n = m"
proof (induction n arbitrary: m rule: natToString.induct)
  case (1 n)
  show ?case
  proof (cases "n < 10")
    case n: True
    show ?thesis
    proof (cases "m < 10")
      case True
      with n "1.prems" show ?thesis
        by (simp add: natToString.simps [of n] natToString.simps [of m] digitChar_inj)
    next
      case False
      with n "1.prems" natToString_nonempty [of "m div 10"] show ?thesis
        by (simp add: natToString.simps [of n] natToString.simps [of m] Cons_eq_append_conv)
    qed
  next
    case n: False
    show ?thesis
    proof (cases "m < 10")
      case True
      with n "1.prems" natToString_nonempty [of "n div 10"] show ?thesis
        by (simp add: natToString.simps [of n] natToString.simps [of m] append_eq_Cons_conv)
    next
      case False
      with n "1.prems" have hd: "natToString (n div 10) = natToString (m div 10)"
        and tl: "digitChar (n mod 10) = digitChar (m mod 10)"
        by (simp_all add: natToString.simps [of n] natToString.simps [of m])
      from "1.IH" [OF n hd] have d: "n div 10 = m div 10" .
      have "n mod 10 = m mod 10" by (rule digitChar_inj [OF _ _ tl]) simp_all
      with d show ?thesis by (metis div_mult_mod_eq)
    qed
  qed
qed

lemma groupIdOf_inj: "groupIdOf n = groupIdOf m \<Longrightarrow> n = m"
  by (simp add: groupIdOf_def natToString_inj)

lemma update_fresh: "k \<notin> fst ` set al \<Longrightarrow> AList.update k v al = al @ [(k, v)]"
  by (induction al) auto

lemma idsInOrder_extractStep: "idsInOrder s \<Longrightarrow> idsInOrder (extractStep s g)"
proof (cases "logic g")
  case AND
  assume "idsInOrder s"
  with AND show ?thesis by (simp add: extractStep_def idsInOrder_def)
next
  case OR
  assume inv: "idsInOrder s"
  have "groupIdOf (orGroupCounter s) \<notin> fst ` set (orGroupsObj s)"
  proof
    assume "groupIdOf (orGroupCounter s) \<in> fst ` set (orGroupsObj s)"
    then have "groupIdOf (orGroupCounter s) \<in> set (map groupIdOf [0..<orGroupCounter s])"
      using inv by (simp add: idsInOrder_def [symmetric] del: set_map) (metis idsInOrder_def set_map)
    then obtain j where "j < orGroupCounter s" "groupIdOf (orGroupCounter s) = groupIdOf j"
      by auto
    then show False by (auto dest: groupIdOf_inj)
  qed
  then have "AList.update (groupIdOf (orGroupCounter s)) (group_fields g) (orGroupsObj s)
      = orGroupsObj s @ [(groupIdOf (orGroupCounter s), group_fields g)]"
    by (rule update_fresh)
  with OR inv show ?thesis by (simp add: extractStep_def idsInOrder_def Let_def)
qed

lemma idsInOrder_foldl: "idsInOrder s \<Longrightarrow> idsInOrder (foldl extractStep s gs)"
  by (induction gs arbitrary: s) (simp_all add: idsInOrder_extractStep)

lemma extracted_group_ids:
  "map fst (orGroups (extractRequiredFieldsWithOrLogic reqs)) =
     map groupIdOf [0..<length (orGroups (extractRequiredFieldsWithOrLogic reqs))]"
proof -
  let ?s = "foldl extractStep \<lparr>requiredFieldsSet = [], orGroupsObj = [], orGroupCounter = 0\<rparr> reqs"
  have inv: "idsInOrder ?s" by (rule idsInOrder_foldl) (simp add: idsInOrder_def)
  then have "length (orGroupsObj ?s) = orGroupCounter ?s"
    unfolding idsInOrder_def by (metis length_map length_upt minus_nat.diff_0)
  with inv show ?thesis
    by (simp add: extractRequiredFieldsWithOrLogic_def Let_def idsInOrder_def)
qed

lemma extracted_group_id_nth:
  assumes "n < length (orGroups (extractRequiredFieldsWithOrLogic reqs))"
  shows "fst (orGroups (extractRequiredFieldsWithOrLogic reqs) ! n) = groupIdOf n"
proof -
  have "fst (orGroups (extractRequiredFieldsWithOrLogic reqs) ! n)
      = map fst (orGroups (extractRequiredFieldsWithOrLogic reqs)) ! n"
    using assms by simp
  also have "\<dots> = map groupIdOf [0..<length (orGroups (extractRequiredFieldsWithOrLogic reqs))] ! n"
    by (simp only: extracted_group_ids [symmetric])
  also have "\<dots> = groupIdOf n" using assms by simp
  finally show ?thesis .
qed

text \<open>
  C7, as stated: the group sequence [AND{a,b}, OR{c,d}, AND{b,e}, OR{f,g}] yields the
  mandatory fields [a, b, e] and the OR-groups \<open>group_0\<close> = {c,d} and \<open>group_1\<close> = {f,g}.
  The statement fails on the identifiers: the extractor builds them with the prefix
  \<open>or_group_\<close>, so the table has no entry named \<open>group_0\<close>.
\<close>

theorem extract_example_group_ids_counterexample:
  "\<not> (requiredFields (extractRequiredFieldsWithOrLogic
          [andGroup [''a'', ''b''], orGroup [''c'', ''d''], andGroup [''b'', ''e''], orGroup [''f'', ''g'']])
        = [''a'', ''b'', ''e''] \<and>
      orGroups (extractRequiredFieldsWithOrLogic
          [andGroup [''a'', ''b''], orGroup [''c'', ''d''], andGroup [''b'', ''e''], orGroup [''f'', ''g'']])
        = [(''group_0'', [''c'', ''d'']), (''group_1'', [''f'', ''g''])])"
  by (simp add: extractRequiredFieldsWithOrLogic_def extractStep_def setAdd_def groupIdOf_def
      natToString_0 natToString_1 andGroup_def orGroup_def)

text \<open>
  C7, amended: for pairwise different a, b, e the group sequence
  [AND{a,b}, OR{c,d}, AND{b,e}, OR{f,g}] yields the mandatory fields [a, b, e] (first
  appearance, the second b dropped) and exactly two OR-groups, \<open>or_group_0\<close> = [c, d] and
  \<open>or_group_1\<close> = [f, g]: the identifier is \<open>or_group_<n>\<close>, n counts OR groups only, and no
  OR-group field enters the mandatory list.
\<close>

theorem extract_example_or_group_ids:
  "distinct [a, b, e] \<Longrightarrow>
   extractRequiredFieldsWithOrLogic
     [andGroup [a, b], orGroup [c, d], andGroup [b, e], orGroup [f, g]]
   = \<lparr>requiredFields = [a, b, e],
      orGroups = [(''or_group_0'', [c, d]), (''or_group_1'', [f, g])]\<rparr>"
  by (auto simp add: extractRequiredFieldsWithOrLogic_def extractStep_def setAdd_def groupIdOf_def
      natToString_0 natToString_1 andGroup_def orGroup_def)

text \<open>C7, amended, at the field keys a to g of the example.\<close>

theorem extract_example_or_group_ids_witness:
  "extractRequiredFieldsWithOrLogic
     [andGroup [''a'', ''b''], orGroup [''c'', ''d''], andGroup [''b'', ''e''], orGroup [''f'', ''g'']]
   = \<lparr>requiredFields = [''a'', ''b'', ''e''],
      orGroups = [(''or_group_0'', [''c'', ''d'']), (''or_group_1'', [''f'', ''g''])]\<rparr>"
  by (rule extract_example_or_group_ids) simp

section \<open>Orchestrator\<close>

lemma calculateCompliance_Inr:
  assumes "cfgs (sumsub_vasp_country input) = Some sc"
    and "cfgs (counterparty_vasp_country input) = Some cc"
  shows "calculateCompliance cfgs conv input =
    Inr \<lparr>sumsub_requirements =
           summarize (selectedRequirements sc input)
             (requiredFields (extractRequiredFieldsWithOrLogic
                (requirements (selectedRequirements sc input)))),
          counterparty_requirements =
           summarize (selectedRequirements cc input)
             (requiredFields (extractRequiredFieldsWithOrLogic
                (requirements (selectedRequirements cc input)))),
          compliance_status =
            determineComplianceStatus
             (requiredFields (extractRequiredFieldsWithOrLogic
                (requirements (selectedRequirements sc input))))
             (requiredFields (extractRequiredFieldsWithOrLogic
                (requirements (selectedRequirements cc input))))
             (transfer_direction input),
          currency = config_currency sc,
          threshold_met = (transfer_amount input \<ge> threshold sc),
          converted_amount = conv (transfer_amount input) (config_currency sc),
          field_analysis =
            analyzeFieldDifferencesWithOrGroups
             (requiredFields (extractRequiredFieldsWithOrLogic
                (requirements (selectedRequirements sc input))))
             (requiredFields (extractRequiredFieldsWithOrLogic
                (requirements (selectedRequirements cc input))))
             (orGroups (extractRequiredFieldsWithOrLogic
                (requirements (selectedRequirements sc input))))
             (orGroups (extractRequiredFieldsWithOrLogic
                (requirements (selectedRequirements cc input))))
             (transfer_direction input)\<rparr>"
proof -
  have s: "lookupConfig cfgs (sumsub_vasp_country input) = Own sc"
    and c: "lookupConfig cfgs (counterparty_vasp_country input) = Own cc"
    using assms by (simp_all add: lookupConfig_def)
  show ?thesis
    unfolding calculateCompliance_def selectedRequirements_def Let_def s c
    by (simp only: falsyConfig.simps ConfigLookup.case simp_thms if_False)
qed

lemma calculateCompliance_lookups:
  "calculateCompliance cfgs conv input =
     (if lookupConfig cfgs (sumsub_vasp_country input) = Undefined \<or>
         lookupConfig cfgs (counterparty_vasp_country input) = Undefined
      then Inl InvalidCountryConfiguration
      else if lookupConfig cfgs (sumsub_vasp_country input) = Inherited \<or>
              lookupConfig cfgs (counterparty_vasp_country input) = Inherited
      then Inl TypeError
      else calculateCompliance cfgs conv input)"
proof (cases "lookupConfig cfgs (sumsub_vasp_country input)")
  case Undefined
  then show ?thesis by (simp add: calculateCompliance_def)
next
  case s: Inherited
  show ?thesis
    by (cases "lookupConfig cfgs (counterparty_vasp_country input)")
       (simp_all add: calculateCompliance_def s)
next
  case s: (Own sc)
  show ?thesis
  proof (cases "lookupConfig cfgs (counterparty_vasp_country input)")
    case Undefined
    then show ?thesis by (simp add: calculateCompliance_def s)
  next
    case Inherited
    then show ?thesis by (simp add: calculateCompliance_def s)
  next
    case (Own cc)
    with s show ?thesis by simp
  qed
qed

lemma lookupConfig_Own: "lookupConfig cfgs code = Own c \<longleftrightarrow> cfgs code = Some c"
  by (simp add: lookupConfig_def split: option.splits)

lemma calculateCompliance_InrD:
  assumes "calculateCompliance cfgs conv input = Inr r"
  obtains sc cc where "cfgs (sumsub_vasp_country input) = Some sc"
    and "cfgs (counterparty_vasp_country input) = Some cc"
proof -
  from assms calculateCompliance_lookups [of cfgs conv input]
  have "lookupConfig cfgs (sumsub_vasp_country input) \<noteq> Undefined"
    and "lookupConfig cfgs (sumsub_vasp_country input) \<noteq> Inherited"
    and "lookupConfig cfgs (counterparty_vasp_country input) \<noteq> Undefined"
    and "lookupConfig cfgs (counterparty_vasp_country input) \<noteq> Inherited"
    by (auto split: if_splits)
  then obtain sc cc where "lookupConfig cfgs (sumsub_vasp_country input) = Own sc"
    and "lookupConfig cfgs (counterparty_vasp_country input) = Own cc"
    by (metis ConfigLookup.exhaust)
  then show ?thesis using that by (simp add: lookupConfig_Own)
qed

lemma calculateCompliance_status:
  assumes "calculateCompliance cfgs conv input = Inr r"
  shows "compliance_status r =
           determineComplianceStatus (required_fields (sumsub_requirements r))
             (required_fields (counterparty_requirements r)) (transfer_direction input)"
    and "distinct (required_fields (sumsub_requirements r))"
    and "distinct (required_fields (counterparty_requirements r))"
proof -
  from assms obtain sc cc where sc: "cfgs (sumsub_vasp_country input) = Some sc"
    and cc: "cfgs (counterparty_vasp_country input) = Some cc"
    by (rule calculateCompliance_InrD)
  have r': "r = projr (calculateCompliance cfgs conv input)" using assms by simp
  show "compliance_status r =
           determineComplianceStatus (required_fields (sumsub_requirements r))
             (required_fields (counterparty_requirements r)) (transfer_direction input)"
    unfolding r' calculateCompliance_Inr [OF sc cc] by (simp add: summarize_def)
  show "distinct (required_fields (sumsub_requirements r))"
    unfolding r' calculateCompliance_Inr [OF sc cc]
    by (simp add: summarize_def distinct_requiredFields)
  show "distinct (required_fields (counterparty_requirements r))"
    unfolding r' calculateCompliance_Inr [OF sc cc]
    by (simp add: summarize_def distinct_requiredFields)
qed

lemma determineComplianceStatus_cong:
  assumes "set a = set a'" "set b = set b'" "distinct a" "distinct a'" "distinct b" "distinct b'"
  shows "determineComplianceStatus a b d = determineComplianceStatus a' b' d"
proof -
  have la: "length a = length a'" using assms by (metis distinct_card)
  have lb: "length b = length b'" using assms by (metis distinct_card)
  show ?thesis
    unfolding determineComplianceStatus_def Let_def list_all_iff set_newSet la lb assms(1) assms(2)
    by (rule refl)
qed

text \<open>
  The three outcomes of the orchestrator. It returns a result exactly when both country
  codes are own keys of the table. It raises the configuration-lookup error exactly when
  one of the two lookups is \<^verbatim>\<open>undefined\<close>. When both lookups are truthy and one of them
  is an inherited member, it raises the \<^verbatim>\<open>TypeError\<close>.
\<close>

lemma calculateCompliance_returns_iff:
  "(\<exists>r. calculateCompliance cfgs conv input = Inr r) =
     (cfgs (sumsub_vasp_country input) \<noteq> None \<and> cfgs (counterparty_vasp_country input) \<noteq> None)"
proof
  assume "\<exists>r. calculateCompliance cfgs conv input = Inr r"
  then obtain r where "calculateCompliance cfgs conv input = Inr r" ..
  then show "cfgs (sumsub_vasp_country input) \<noteq> None \<and> cfgs (counterparty_vasp_country input) \<noteq> None"
    by (rule calculateCompliance_InrD) simp
next
  assume "cfgs (sumsub_vasp_country input) \<noteq> None \<and> cfgs (counterparty_vasp_country input) \<noteq> None"
  then obtain sc cc where "cfgs (sumsub_vasp_country input) = Some sc"
    and "cfgs (counterparty_vasp_country input) = Some cc" by auto
  then show "\<exists>r. calculateCompliance cfgs conv input = Inr r"
    by (simp add: calculateCompliance_Inr)
qed

lemma calculateCompliance_lookup_error_iff:
  "(calculateCompliance cfgs conv input = Inl InvalidCountryConfiguration) =
     (lookupConfig cfgs (sumsub_vasp_country input) = Undefined \<or>
      lookupConfig cfgs (counterparty_vasp_country input) = Undefined)"
proof (cases "lookupConfig cfgs (sumsub_vasp_country input) = Undefined \<or>
      lookupConfig cfgs (counterparty_vasp_country input) = Undefined")
  case True
  then show ?thesis using calculateCompliance_lookups [of cfgs conv input] by simp
next
  case False
  show ?thesis
  proof (cases "lookupConfig cfgs (sumsub_vasp_country input) = Inherited \<or>
      lookupConfig cfgs (counterparty_vasp_country input) = Inherited")
    case True
    with False show ?thesis using calculateCompliance_lookups [of cfgs conv input] by simp
  next
    case noInh: False
    with False obtain sc cc where "lookupConfig cfgs (sumsub_vasp_country input) = Own sc"
      and "lookupConfig cfgs (counterparty_vasp_country input) = Own cc"
      by (metis ConfigLookup.exhaust)
    then have "cfgs (sumsub_vasp_country input) = Some sc"
      and "cfgs (counterparty_vasp_country input) = Some cc"
      by (simp_all add: lookupConfig_Own)
    with False show ?thesis by (simp add: calculateCompliance_Inr)
  qed
qed

lemma calculateCompliance_type_error:
  assumes "lookupConfig cfgs (sumsub_vasp_country input) \<noteq> Undefined"
    and "lookupConfig cfgs (counterparty_vasp_country input) \<noteq> Undefined"
    and "lookupConfig cfgs (sumsub_vasp_country input) = Inherited \<or>
         lookupConfig cfgs (counterparty_vasp_country input) = Inherited"
  shows "calculateCompliance cfgs conv input = Inl TypeError"
  using assms calculateCompliance_lookups [of cfgs conv input] by simp

text \<open>
  C8 at a failing input. The origin code \<open>constructor\<close> has no entry in the shipped table,
  so the call should fail with the configuration-lookup error. The lookup on the object
  literal yields the inherited member, the guard \<^verbatim>\<open>!sumsubConfig || !counterpartyConfig\<close>
  lets it pass, and the call dies with a \<^verbatim>\<open>TypeError\<close> where the sumsub rule set is
  selected.
\<close>

theorem calculateCompliance_prototype_code_type_error:
  "countryConfigs ''constructor'' = None \<and>
   countryConfigs ''DEU'' \<noteq> None \<and>
   calculateCompliance countryConfigs (\<lambda>amount cur. amount)
     \<lparr>sumsub_vasp_country = ''constructor'', counterparty_vasp_country = ''DEU'',
      customer_type = Individual, transfer_direction = OUT, transfer_amount = 5\<rparr>
     = Inl TypeError \<and>
   calculateCompliance countryConfigs (\<lambda>amount cur. amount)
     \<lparr>sumsub_vasp_country = ''constructor'', counterparty_vasp_country = ''DEU'',
      customer_type = Individual, transfer_direction = OUT, transfer_amount = 5\<rparr>
     \<noteq> Inl InvalidCountryConfiguration"
proof -
  let ?input = "\<lparr>sumsub_vasp_country = ''constructor'', counterparty_vasp_country = ''DEU'',
      customer_type = Individual, transfer_direction = OUT, transfer_amount = 5\<rparr>"
  have own: "countryConfigs ''constructor'' = None" "countryConfigs ''DEU'' \<noteq> None"
    by (simp_all add: countryConfigs_def)
  have "calculateCompliance countryConfigs (\<lambda>amount cur. amount) ?input = Inl TypeError"
    by (rule calculateCompliance_type_error)
       (simp_all add: lookupConfig_def countryConfigs_def objectPrototypeKeys_def)
  with own show ?thesis by simp
qed

text \<open>
  C9: when both configurations are present the call returns a result in which each party's
  requirement summary is built from that party's above-threshold rule set exactly when
  \<open>transfer_amount \<ge> threshold\<close> of that party (inclusive, so a threshold of 0 selects
  it for every non-negative amount) and from its below-threshold rule set otherwise; the
  flag \<open>threshold_met\<close> is the origin side's comparison, and it is the same for every
  other table that keeps the origin's configuration, whatever the counterparty's is.
\<close>

theorem threshold_tier_selection:
  assumes "cfgs (sumsub_vasp_country input) = Some sc"
    and "cfgs (counterparty_vasp_country input) = Some cc"
  shows "\<exists>r. calculateCompliance cfgs conv input = Inr r \<and>
           threshold_met r = (transfer_amount input \<ge> threshold sc) \<and>
           sumsub_requirements r =
             (let reqs = (if transfer_amount input \<ge> threshold sc
                          then above_threshold (byCustomerType sc (customer_type input))
                          else below_threshold (byCustomerType sc (customer_type input)))
              in summarize reqs (requiredFields (extractRequiredFieldsWithOrLogic (requirements reqs)))) \<and>
           counterparty_requirements r =
             (let reqs = (if transfer_amount input \<ge> threshold cc
                          then above_threshold (byCustomerType cc (customer_type input))
                          else below_threshold (byCustomerType cc (customer_type input)))
              in summarize reqs (requiredFields (extractRequiredFieldsWithOrLogic (requirements reqs)))) \<and>
           (\<forall>cfgs' cc'. cfgs' (sumsub_vasp_country input) = Some sc \<longrightarrow>
                        cfgs' (counterparty_vasp_country input) = Some cc' \<longrightarrow>
              (\<exists>r'. calculateCompliance cfgs' conv input = Inr r' \<and> threshold_met r' = threshold_met r))"
  unfolding calculateCompliance_Inr [OF assms] selectedRequirements_def Let_def
  by (simp add: calculateCompliance_Inr selectedRequirements_def)

text \<open>
  C9 on the shipped table: a transfer of 1000 from DEU (threshold 0) to EU (threshold 1000)
  meets the origin's threshold, and the amount equal to the counterparty's threshold
  selects the counterparty's above-threshold rule set.
\<close>

theorem threshold_tier_selection_witness:
  "\<exists>r. calculateCompliance countryConfigs (\<lambda>amount cur. amount)
           \<lparr>sumsub_vasp_country = ''DEU'', counterparty_vasp_country = ''EU'',
            customer_type = Individual, transfer_direction = OUT, transfer_amount = 1000\<rparr> = Inr r \<and>
        threshold_met r \<and>
        requirement_groups (sumsub_requirements r) = requirements deuIndividual \<and>
        requirement_groups (counterparty_requirements r) =
          [andGroup [''full_name'', ''id_document_number'', ''date_of_birth'',
                     ''residential_address'', ''wallet_address'', ''customer_id'']]"
proof -
  let ?i = "\<lparr>sumsub_vasp_country = ''DEU'', counterparty_vasp_country = ''EU'',
            customer_type = Individual, transfer_direction = OUT, transfer_amount = 1000\<rparr>"
  have sc: "countryConfigs (sumsub_vasp_country ?i) = Some deuConfig"
    by (simp add: countryConfigs_def)
  have cc: "countryConfigs (counterparty_vasp_country ?i) = Some euConfig"
    by (simp add: countryConfigs_def)
  from threshold_tier_selection [OF sc cc, of "\<lambda>amount cur. amount"]
  obtain r where r: "calculateCompliance countryConfigs (\<lambda>amount cur. amount) ?i = Inr r"
    and t: "threshold_met r = (transfer_amount ?i \<ge> threshold deuConfig)"
    and s: "sumsub_requirements r =
             (let reqs = (if transfer_amount ?i \<ge> threshold deuConfig
                          then above_threshold (byCustomerType deuConfig (customer_type ?i))
                          else below_threshold (byCustomerType deuConfig (customer_type ?i)))
              in summarize reqs (requiredFields (extractRequiredFieldsWithOrLogic (requirements reqs))))"
    and c: "counterparty_requirements r =
             (let reqs = (if transfer_amount ?i \<ge> threshold euConfig
                          then above_threshold (byCustomerType euConfig (customer_type ?i))
                          else below_threshold (byCustomerType euConfig (customer_type ?i)))
              in summarize reqs (requiredFields (extractRequiredFieldsWithOrLogic (requirements reqs))))"
    by blast
  have "threshold_met r" using t by (simp add: deuConfig_def)
  moreover have "requirement_groups (sumsub_requirements r) = requirements deuIndividual"
    unfolding s by (simp add: deuConfig_def byCustomerType_def summarize_def)
  moreover have "requirement_groups (counterparty_requirements r) =
          [andGroup [''full_name'', ''id_document_number'', ''date_of_birth'',
                     ''residential_address'', ''wallet_address'', ''customer_id'']]"
    unfolding c by (simp add: euConfig_def byCustomerType_def summarize_def ruleSet_def)
  ultimately show ?thesis using r by blast
qed

text \<open>
  C5: the classification depends only on the two mandatory field sets and the transfer
  direction. Whenever two evaluations (of any inputs, on any jurisdiction tables) return
  results whose mandatory field sets agree on both sides and whose directions agree, their
  classifications are equal, whatever their OR groups, OR-group resolutions and semantic
  matches are.
\<close>

theorem status_depends_only_on_mandatory_sets:
  assumes "calculateCompliance cfgs1 conv1 input1 = Inr r1"
    and "calculateCompliance cfgs2 conv2 input2 = Inr r2"
    and "set (required_fields (sumsub_requirements r1)) = set (required_fields (sumsub_requirements r2))"
    and "set (required_fields (counterparty_requirements r1)) =
         set (required_fields (counterparty_requirements r2))"
    and "transfer_direction input1 = transfer_direction input2"
  shows "compliance_status r1 = compliance_status r2"
  unfolding calculateCompliance_status(1) [OF assms(1)] calculateCompliance_status(1) [OF assms(2)] assms(5)
  by (rule determineComplianceStatus_cong [OF assms(3) assms(4)
        calculateCompliance_status(2) [OF assms(1)] calculateCompliance_status(2) [OF assms(2)]
        calculateCompliance_status(3) [OF assms(1)] calculateCompliance_status(3) [OF assms(2)]])

text \<open>
  C5 on two tables: ZAF to DEU on the shipped table, where the German rule set has an OR
  group that \<open>customer_id\<close> resolves, and on a table whose German rule set lists the same
  mandatory fields in another order and has no OR group. The classifications agree, the
  OR-group resolutions do not.
\<close>

theorem status_depends_only_on_mandatory_sets_witness:
  "compliance_status (projr (calculateCompliance countryConfigs (\<lambda>amount cur. amount)
      \<lparr>sumsub_vasp_country = ''ZAF'', counterparty_vasp_country = ''DEU'',
       customer_type = Individual, transfer_direction = OUT, transfer_amount = 5\<rparr>))
   = compliance_status (projr (calculateCompliance (countryConfigs(''DEU'' \<mapsto> deuConfigAndOnly))
      (\<lambda>amount cur. amount)
      \<lparr>sumsub_vasp_country = ''ZAF'', counterparty_vasp_country = ''DEU'',
       customer_type = Individual, transfer_direction = OUT, transfer_amount = 70\<rparr>)) \<and>
   or_group_matches (field_analysis (projr (calculateCompliance countryConfigs (\<lambda>amount cur. amount)
      \<lparr>sumsub_vasp_country = ''ZAF'', counterparty_vasp_country = ''DEU'',
       customer_type = Individual, transfer_direction = OUT, transfer_amount = 5\<rparr>))) ''or_group_0''
     = Some ''customer_id'' \<and>
   or_group_matches (field_analysis (projr (calculateCompliance
      (countryConfigs(''DEU'' \<mapsto> deuConfigAndOnly)) (\<lambda>amount cur. amount)
      \<lparr>sumsub_vasp_country = ''ZAF'', counterparty_vasp_country = ''DEU'',
       customer_type = Individual, transfer_direction = OUT, transfer_amount = 70\<rparr>))) ''or_group_0''
     = None"
proof (intro conjI)
  let ?i1 = "\<lparr>sumsub_vasp_country = ''ZAF'', counterparty_vasp_country = ''DEU'',
       customer_type = Individual, transfer_direction = OUT, transfer_amount = 5\<rparr>"
  let ?i2 = "\<lparr>sumsub_vasp_country = ''ZAF'', counterparty_vasp_country = ''DEU'',
       customer_type = Individual, transfer_direction = OUT, transfer_amount = 70\<rparr>"
  let ?c2 = "countryConfigs(''DEU'' \<mapsto> deuConfigAndOnly)"
  let ?f = "\<lambda>amount cur. amount :: real"
  have s1: "countryConfigs (sumsub_vasp_country ?i1) = Some zafConfig"
    and c1: "countryConfigs (counterparty_vasp_country ?i1) = Some deuConfig"
    and s2: "?c2 (sumsub_vasp_country ?i2) = Some zafConfig"
    and c2: "?c2 (counterparty_vasp_country ?i2) = Some deuConfigAndOnly"
    by (simp_all add: countryConfigs_def)
  have r1: "calculateCompliance countryConfigs ?f ?i1 = Inr (projr (calculateCompliance countryConfigs ?f ?i1))"
    unfolding calculateCompliance_Inr [OF s1 c1] by simp
  have r2: "calculateCompliance ?c2 ?f ?i2 = Inr (projr (calculateCompliance ?c2 ?f ?i2))"
    unfolding calculateCompliance_Inr [OF s2 c2] by simp
  have a: "set (required_fields (sumsub_requirements (projr (calculateCompliance countryConfigs ?f ?i1))))
         = set (required_fields (sumsub_requirements (projr (calculateCompliance ?c2 ?f ?i2))))"
    unfolding calculateCompliance_Inr [OF s1 c1] calculateCompliance_Inr [OF s2 c2]
    by (simp add: eval_simps)
  have b: "set (required_fields (counterparty_requirements (projr (calculateCompliance countryConfigs ?f ?i1))))
         = set (required_fields (counterparty_requirements (projr (calculateCompliance ?c2 ?f ?i2))))"
    unfolding calculateCompliance_Inr [OF s1 c1] calculateCompliance_Inr [OF s2 c2]
    by (simp add: eval_simps deuConfigAndOnly_def insert_commute)
  have d: "transfer_direction ?i1 = transfer_direction ?i2" by simp
  show "compliance_status (projr (calculateCompliance countryConfigs ?f ?i1))
      = compliance_status (projr (calculateCompliance ?c2 ?f ?i2))"
    by (rule status_depends_only_on_mandatory_sets [OF r1 r2 a b d])
  show "or_group_matches (field_analysis (projr (calculateCompliance countryConfigs ?f ?i1)))
          ''or_group_0'' = Some ''customer_id''"
    by code_simp
  show "or_group_matches (field_analysis (projr (calculateCompliance ?c2 ?f ?i2)))
          ''or_group_0'' = None"
    by code_simp
qed

section \<open>The matcher\<close>

subsection \<open>The scan of one OR group\<close>

lemma scanOrFields_find:
  "scanOrFields otherSet groupId orFields st =
     (case List.find (claimable otherSet st) orFields of
        None \<Rightarrow> st
      | Some f \<Rightarrow> resolveWith f groupId st)"
  by (induction orFields) (simp_all add: claimable_def resolveWith_def)

lemma isDeuOrGroup_set:
  assumes "isDeuOrGroup orFields"
  shows "set orFields = {''id_document_number'', ''customer_id'', ''date_of_birth'', ''birthplace''}"
proof -
  let ?D = "{''id_document_number'', ''customer_id'', ''date_of_birth'', ''birthplace''}"
  have sub: "?D \<subseteq> set orFields" using assms by (simp add: isDeuOrGroup_def)
  have "card ?D = 4" by simp
  moreover have "card (set orFields) \<le> 4"
    using assms card_length [of orFields] by (simp add: isDeuOrGroup_def)
  ultimately have "card (set orFields) \<le> card ?D" by simp
  with sub show ?thesis by (metis card_seteq List.finite_set)
qed

lemma isDeuOrGroup_nonempty_keys: "isDeuOrGroup orFields \<Longrightarrow> f \<in> set orFields \<Longrightarrow> f \<noteq> []"
  by (auto dest: isDeuOrGroup_set)

lemma find_Some_mem: "List.find P xs = Some x \<Longrightarrow> x \<in> set xs \<and> P x"
  by (induction xs) (auto split: if_splits)

lemma deuCombination_after_resolve:
  assumes "f \<in> set orFields"
  shows "deuCombination otherSet groupId orFields (resolveWith f groupId st) = resolveWith f groupId st"
proof (cases "isDeuOrGroup orFields")
  case True
  from True assms have "f \<noteq> []" by (rule isDeuOrGroup_nonempty_keys)
  then have "alreadyMatched (resolveWith f groupId st) groupId"
    by (simp add: alreadyMatched_def resolveWith_def)
  then show ?thesis by (simp add: deuCombination_def)
next
  case False
  then show ?thesis by (simp add: deuCombination_def)
qed

lemma orGroupStep_resolved:
  assumes "\<not> alreadyMatched st groupId"
    and "List.find (claimable otherSet st) orFields = Some f"
  shows "orGroupStep otherSet st (groupId, orFields) = resolveWith f groupId st"
  using assms find_Some_mem [OF assms(2)]
  by (simp add: orGroupStep_def scanOrFields_find deuCombination_after_resolve)

lemma orGroupStep_skip:
  "alreadyMatched st groupId \<Longrightarrow> orGroupStep otherSet st (groupId, orFields) = st"
  by (simp add: orGroupStep_def)

subsection \<open>Both claimed sets agree during steps 1 to 3\<close>

lemma claimsAgree_exactStep: "claimsAgree st \<Longrightarrow> claimsAgree (exactStep cs st f)"
  by (simp add: claimsAgree_def exactStep_def)

lemma claimsAgree_scanOrFields: "claimsAgree st \<Longrightarrow> claimsAgree (scanOrFields s g fs st)"
  by (simp add: scanOrFields_find claimsAgree_def resolveWith_def split: option.splits)

lemma claimsAgree_deuCombination: "claimsAgree st \<Longrightarrow> claimsAgree (deuCombination s g fs st)"
  by (simp add: deuCombination_def claimsAgree_def)

lemma claimsAgree_orGroupStep: "claimsAgree st \<Longrightarrow> claimsAgree (orGroupStep s st e)"
  by (cases e) (simp add: orGroupStep_def claimsAgree_scanOrFields claimsAgree_deuCombination)

lemma claimsAgree_foldl_exactStep: "claimsAgree st \<Longrightarrow> claimsAgree (foldl (exactStep cs) st fs)"
  by (induction fs arbitrary: st) (simp_all add: claimsAgree_exactStep)

lemma claimsAgree_foldl_orGroupStep: "claimsAgree st \<Longrightarrow> claimsAgree (foldl (orGroupStep s) st gs)"
  by (induction gs arbitrary: st) (simp_all add: claimsAgree_orGroupStep)

lemma claimsAgree_afterStep1: "claimsAgree (afterStep1 sF cF)"
  unfolding afterStep1_def
  by (rule claimsAgree_foldl_exactStep) (simp add: claimsAgree_def initMatchState_def)

lemma claimsAgree_afterStep2: "claimsAgree (afterStep2 sF cF gsB)"
  unfolding afterStep2_def
  by (rule claimsAgree_foldl_orGroupStep) (rule claimsAgree_afterStep1)

text \<open>
  C3: step 3 treats the sumsub side's OR groups as step 2 treats the counterparty's, with
  the roles reversed. When a sumsub OR group is reached (after step 2 and the groups
  before it) and is not skipped, and \<open>f\<close> is the first field of its declared list that is
  in the counterparty's mandatory set and not yet claimed on the counterparty's side, the
  step records the exact, alternative-flagged match of \<open>f\<close> with \<open>f\<close> under the group's
  identifier, claims \<open>f\<close> on both sides and records \<open>f\<close> as the group's resolution.
  (The source tests the sumsub side's claimed set; during steps 1 to 3 the two claimed sets
  are equal.)
\<close>

theorem step3_first_claimable_field:
  assumes "sumsubOrGroups = before @ (groupId, orFields) # rest"
    and "st = foldl (orGroupStep (newSet counterpartyFields))
                (afterStep2 sumsubFields counterpartyFields counterpartyOrGroups) before"
    and "\<not> alreadyMatched st groupId"
    and "List.find (\<lambda>f. f \<in> set counterpartyFields \<and> f \<notin> set (matchedCounterpartyFields st)) orFields
           = Some f"
  shows "foldl (orGroupStep (newSet counterpartyFields))
           (afterStep2 sumsubFields counterpartyFields counterpartyOrGroups)
           (before @ [(groupId, orFields)])
         = st\<lparr>fieldMatches := fieldMatches st @
                 [\<lparr>sumsubField = f, counterpartyField = f, isExactMatch = True,
                   isOrGroupMatch = Some True, orGroupId = Some groupId\<rparr>],
               matchedSumsubFields := setAdd f (matchedSumsubFields st),
               matchedCounterpartyFields := setAdd f (matchedCounterpartyFields st),
               orGroupMatches := (orGroupMatches st)(groupId \<mapsto> f)\<rparr>"
proof -
  have agree: "claimsAgree st"
    unfolding assms(2) by (rule claimsAgree_foldl_orGroupStep) (rule claimsAgree_afterStep2)
  then have same: "claimable (newSet counterpartyFields) st =
      (\<lambda>f. f \<in> set counterpartyFields \<and> f \<notin> set (matchedCounterpartyFields st))"
    by (simp add: claimable_def claimsAgree_def fun_eq_iff)
  have "orGroupStep (newSet counterpartyFields) st (groupId, orFields) = resolveWith f groupId st"
    using assms(3) assms(4) by (intro orGroupStep_resolved) (simp_all add: same)
  then show ?thesis
    by (simp add: assms(2) [symmetric] resolveWith_def orMatch_def)
qed

text \<open>
  C3 on a transfer into DEU from ZAF below its threshold: the sumsub side's identity group
  is resolved by \<open>customer_id\<close>, the first of its fields that the counterparty requires and
  that is still unclaimed.
\<close>

theorem step3_first_claimable_field_witness:
  "orGroupMatches
     (afterStep3 [''full_name'', ''residential_address'', ''wallet_address'']
        [''full_name'', ''wallet_address'', ''customer_id'']
        [(''or_group_0'', [''id_document_number'', ''customer_id'', ''date_of_birth'', ''birthplace''])] [])
     ''or_group_0'' = Some ''customer_id''"
proof -
  let ?sF = "[''full_name'', ''residential_address'', ''wallet_address'']"
  let ?cF = "[''full_name'', ''wallet_address'', ''customer_id'']"
  let ?fs = "[''id_document_number'', ''customer_id'', ''date_of_birth'', ''birthplace'']"
  let ?st = "afterStep2 ?sF ?cF []"
  have h1: "[(''or_group_0'', ?fs)] = [] @ (''or_group_0'', ?fs) # []" by simp
  have h2: "?st = foldl (orGroupStep (newSet ?cF)) (afterStep2 ?sF ?cF []) []" by simp
  have h3: "\<not> alreadyMatched ?st ''or_group_0''" by code_simp
  have h4: "List.find (\<lambda>f. f \<in> set ?cF \<and> f \<notin> set (matchedCounterpartyFields ?st)) ?fs
              = Some ''customer_id''" by code_simp
  have "afterStep3 ?sF ?cF [(''or_group_0'', ?fs)] []
      = ?st\<lparr>fieldMatches := fieldMatches ?st @
                 [\<lparr>sumsubField = ''customer_id'', counterpartyField = ''customer_id'',
                   isExactMatch = True, isOrGroupMatch = Some True, orGroupId = Some ''or_group_0''\<rparr>],
               matchedSumsubFields := setAdd ''customer_id'' (matchedSumsubFields ?st),
               matchedCounterpartyFields := setAdd ''customer_id'' (matchedCounterpartyFields ?st),
               orGroupMatches := (orGroupMatches ?st)(''or_group_0'' \<mapsto> ''customer_id'')\<rparr>"
    unfolding afterStep3_def
    using step3_first_claimable_field [OF h1 h2 h3 h4] by simp
  then show ?thesis by simp
qed

subsection \<open>What the steps leave unchanged\<close>

lemma orGroupMatches_exactStep [simp]: "orGroupMatches (exactStep cs st f) = orGroupMatches st"
  by (simp add: exactStep_def)

lemma orGroupMatches_foldl_exactStep [simp]:
  "orGroupMatches (foldl (exactStep cs) st fs) = orGroupMatches st"
  by (induction fs arbitrary: st) simp_all

lemma orGroupMatches_semanticStep [simp]: "orGroupMatches (semanticStep st m) = orGroupMatches st"
  by (simp add: semanticStep_def)

lemma orGroupMatches_foldl_semanticStep [simp]:
  "orGroupMatches (foldl semanticStep st ms) = orGroupMatches st"
  by (induction ms arbitrary: st) simp_all

lemma orGroupMatches_afterStep1 [simp]: "orGroupMatches (afterStep1 sF cF) = Map.empty"
  by (simp add: afterStep1_def initMatchState_def)

lemma or_group_matches_analyze:
  "or_group_matches (analyzeFieldDifferencesWithOrGroups sF cF gsA gsB d)
     = orGroupMatches (afterStep3 sF cF gsA gsB)"
  by (cases d) (simp_all add: analyzeFieldDifferencesWithOrGroups_def Let_def afterStep4_def)

lemma field_matches_analyze:
  "field_matches (analyzeFieldDifferencesWithOrGroups sF cF gsA gsB d)
     = fieldMatches (afterStep4 sF cF gsA gsB)"
  by (cases d) (simp_all add: analyzeFieldDifferencesWithOrGroups_def Let_def)

lemma orGroupMatches_scanOrFields_other:
  "g \<noteq> g' \<Longrightarrow> orGroupMatches (scanOrFields s g fs st) g' = orGroupMatches st g'"
  by (simp add: scanOrFields_find resolveWith_def split: option.splits)

lemma orGroupMatches_deuCombination_other:
  "g \<noteq> g' \<Longrightarrow> orGroupMatches (deuCombination s g fs st) g' = orGroupMatches st g'"
  by (simp add: deuCombination_def)

lemma orGroupMatches_orGroupStep_other:
  "g \<noteq> g' \<Longrightarrow> orGroupMatches (orGroupStep s st (g, fs)) g' = orGroupMatches st g'"
  by (simp add: orGroupStep_def orGroupMatches_scanOrFields_other orGroupMatches_deuCombination_other)

subsection \<open>A recorded resolution is never replaced\<close>

lemma orGroupStep_keeps:
  assumes "orGroupMatches st g' = Some v" "v \<noteq> []"
  shows "orGroupMatches (orGroupStep s st e) g' = Some v"
proof (cases e)
  case (Pair g fs)
  show ?thesis
  proof (cases "g = g'")
    case True
    with assms have "alreadyMatched st g" by (simp add: alreadyMatched_def)
    with Pair True assms show ?thesis by (simp add: orGroupStep_skip)
  next
    case False
    with Pair assms show ?thesis by (simp add: orGroupMatches_orGroupStep_other)
  qed
qed

lemma foldl_orGroupStep_keeps:
  "orGroupMatches st g' = Some v \<Longrightarrow> v \<noteq> [] \<Longrightarrow>
   orGroupMatches (foldl (orGroupStep s) st gs) g' = Some v"
  by (induction gs arbitrary: st) (simp_all add: orGroupStep_keeps)

lemma alreadyMatched_Some: "alreadyMatched st g = (\<exists>v. orGroupMatches st g = Some v \<and> v \<noteq> [])"
  by (simp add: alreadyMatched_def split: option.splits)

lemma foldl_orGroupStep_alreadyMatched:
  "alreadyMatched st g \<Longrightarrow> alreadyMatched (foldl (orGroupStep s) st gs) g"
  unfolding alreadyMatched_Some by (auto intro: foldl_orGroupStep_keeps)

lemma foldl_orGroupStep_keeps_value:
  "alreadyMatched st g \<Longrightarrow> orGroupMatches (foldl (orGroupStep s) st gs) g = orGroupMatches st g"
  unfolding alreadyMatched_Some by (auto simp: foldl_orGroupStep_keeps)

subsection \<open>Matches recorded under an identifier\<close>

lemma fieldMatches_scanOrFields_other:
  "g \<noteq> g' \<Longrightarrow> filter (\<lambda>m. orGroupId m = Some g') (fieldMatches (scanOrFields s g fs st))
     = filter (\<lambda>m. orGroupId m = Some g') (fieldMatches st)"
  by (simp add: scanOrFields_find resolveWith_def orMatch_def split: option.splits)

lemma fieldMatches_deuCombination_other:
  "g \<noteq> g' \<Longrightarrow> filter (\<lambda>m. orGroupId m = Some g') (fieldMatches (deuCombination s g fs st))
     = filter (\<lambda>m. orGroupId m = Some g') (fieldMatches st)"
  by (simp add: deuCombination_def orMatch_def)

lemma fieldMatches_orGroupStep_resolved:
  assumes "alreadyMatched st g'"
  shows "filter (\<lambda>m. orGroupId m = Some g') (fieldMatches (orGroupStep s st e))
     = filter (\<lambda>m. orGroupId m = Some g') (fieldMatches st)"
proof (cases e)
  case (Pair g fs)
  show ?thesis
  proof (cases "g = g'")
    case True
    with Pair assms show ?thesis by (simp add: orGroupStep_skip)
  next
    case False
    with Pair show ?thesis
      by (simp add: orGroupStep_def fieldMatches_scanOrFields_other fieldMatches_deuCombination_other)
  qed
qed

lemma fieldMatches_foldl_orGroupStep_resolved:
  "alreadyMatched st g' \<Longrightarrow>
   filter (\<lambda>m. orGroupId m = Some g') (fieldMatches (foldl (orGroupStep s) st gs))
     = filter (\<lambda>m. orGroupId m = Some g') (fieldMatches st)"
proof (induction gs arbitrary: st)
  case Nil
  show ?case by simp
next
  case (Cons e gs)
  have "alreadyMatched (orGroupStep s st e) g'"
    using foldl_orGroupStep_alreadyMatched [OF Cons.prems, of s "[e]"] by simp
  from Cons.IH [OF this] show ?case
    by (simp add: fieldMatches_orGroupStep_resolved [OF Cons.prems])
qed

lemma findSemanticMatches_no_group: "m \<in> set (findSemanticMatches sF cF) \<Longrightarrow> orGroupId m = None"
  by (auto simp: findSemanticMatches_def)

lemma fieldMatches_foldl_semanticStep:
  "(\<And>m. m \<in> set ms \<Longrightarrow> orGroupId m = None) \<Longrightarrow>
   filter (\<lambda>m. orGroupId m = Some g') (fieldMatches (foldl semanticStep st ms))
     = filter (\<lambda>m. orGroupId m = Some g') (fieldMatches st)"
  by (induction ms arbitrary: st) (simp_all add: semanticStep_def)

text \<open>
  C4: both sides number their OR groups from 0, so the n-th OR group of the sumsub side
  carries the identifier of the n-th OR group of the counterparty. When step 2 has resolved
  the counterparty's n-th group (its identifier passes the test \<open>orGroupMatches[groupId]\<close>),
  step 3 leaves the state as it is at the sumsub side's n-th group: the resolution under
  that identifier in the result is the one step 2 recorded, and the matches carrying that
  identifier are those of step 2. A resolution that passes the test, recorded at any point
  of step 2 or step 3, is the one the result holds: no identifier ever gets a second one.
\<close>

theorem shared_identifier_skips_step3:
  assumes A: "sumsubOrGroups = orGroups (extractRequiredFieldsWithOrLogic reqsA)"
    and B: "counterpartyOrGroups = orGroups (extractRequiredFieldsWithOrLogic reqsB)"
    and nA: "n < length sumsubOrGroups"
    and nB: "n < length counterpartyOrGroups"
    and st2: "st2 = afterStep2 sumsubFields counterpartyFields counterpartyOrGroups"
    and res: "alreadyMatched st2 (fst (counterpartyOrGroups ! n))"
    and fin: "final = analyzeFieldDifferencesWithOrGroups sumsubFields counterpartyFields
                        sumsubOrGroups counterpartyOrGroups direction"
  shows "fst (sumsubOrGroups ! n) = ''or_group_'' @ natToString n \<and>
         fst (counterpartyOrGroups ! n) = ''or_group_'' @ natToString n \<and>
         foldl (orGroupStep (newSet counterpartyFields)) st2 (take (Suc n) sumsubOrGroups)
           = foldl (orGroupStep (newSet counterpartyFields)) st2 (take n sumsubOrGroups) \<and>
         or_group_matches final (fst (sumsubOrGroups ! n))
           = orGroupMatches st2 (fst (sumsubOrGroups ! n)) \<and>
         filter (\<lambda>m. orGroupId m = Some (fst (sumsubOrGroups ! n))) (field_matches final)
           = filter (\<lambda>m. orGroupId m = Some (fst (sumsubOrGroups ! n))) (fieldMatches st2) \<and>
         (\<forall>k groupId v.
            orGroupMatches (foldl (orGroupStep (newSet sumsubFields))
               (afterStep1 sumsubFields counterpartyFields) (take k counterpartyOrGroups)) groupId = Some v
            \<and> v \<noteq> [] \<longrightarrow> or_group_matches final groupId = Some v) \<and>
         (\<forall>k groupId v.
            orGroupMatches (foldl (orGroupStep (newSet counterpartyFields)) st2
               (take k sumsubOrGroups)) groupId = Some v
            \<and> v \<noteq> [] \<longrightarrow> or_group_matches final groupId = Some v)"
proof (intro conjI allI impI)
  let ?g = "fst (sumsubOrGroups ! n)"
  let ?step3 = "orGroupStep (newSet counterpartyFields)"
  show idA: "?g = ''or_group_'' @ natToString n"
    using nA unfolding A by (simp add: extracted_group_id_nth groupIdOf_def)
  show idB: "fst (counterpartyOrGroups ! n) = ''or_group_'' @ natToString n"
    using nB unfolding B by (simp add: extracted_group_id_nth groupIdOf_def)
  have ids: "?g = fst (counterpartyOrGroups ! n)" using idA idB by simp
  have res': "alreadyMatched st2 ?g" using res ids by simp
  have final3: "or_group_matches final = orGroupMatches (foldl ?step3 st2 sumsubOrGroups)"
    unfolding fin st2 by (simp add: or_group_matches_analyze afterStep3_def)
  show "foldl ?step3 st2 (take (Suc n) sumsubOrGroups) = foldl ?step3 st2 (take n sumsubOrGroups)"
  proof -
    have "alreadyMatched (foldl ?step3 st2 (take n sumsubOrGroups)) ?g"
      by (rule foldl_orGroupStep_alreadyMatched [OF res'])
    then have "?step3 (foldl ?step3 st2 (take n sumsubOrGroups)) (?g, snd (sumsubOrGroups ! n))
        = foldl ?step3 st2 (take n sumsubOrGroups)"
      by (rule orGroupStep_skip)
    then show ?thesis using nA by (simp add: take_Suc_conv_app_nth)
  qed
  show "or_group_matches final ?g = orGroupMatches st2 ?g"
    unfolding final3 by (rule foldl_orGroupStep_keeps_value [OF res'])
  show "filter (\<lambda>m. orGroupId m = Some ?g) (field_matches final)
           = filter (\<lambda>m. orGroupId m = Some ?g) (fieldMatches st2)"
    unfolding fin field_matches_analyze afterStep4_def afterStep3_def st2 [symmetric]
    by (simp add: fieldMatches_foldl_semanticStep findSemanticMatches_no_group
        fieldMatches_foldl_orGroupStep_resolved [OF res'])
next
  fix k groupId v
  let ?step2 = "orGroupStep (newSet sumsubFields)"
  let ?step3 = "orGroupStep (newSet counterpartyFields)"
  assume h: "orGroupMatches (foldl ?step2 (afterStep1 sumsubFields counterpartyFields)
               (take k counterpartyOrGroups)) groupId = Some v \<and> v \<noteq> []"
  have "st2 = foldl ?step2 (foldl ?step2 (afterStep1 sumsubFields counterpartyFields)
               (take k counterpartyOrGroups)) (drop k counterpartyOrGroups)"
    unfolding st2 afterStep2_def by (simp add: foldl_append [symmetric])
  with h have "orGroupMatches st2 groupId = Some v" by (simp add: foldl_orGroupStep_keeps)
  with h have "orGroupMatches (foldl ?step3 st2 sumsubOrGroups) groupId = Some v"
    by (simp add: foldl_orGroupStep_keeps)
  then show "or_group_matches final groupId = Some v"
    unfolding fin st2 by (simp add: or_group_matches_analyze afterStep3_def)
next
  fix k groupId v
  let ?step3 = "orGroupStep (newSet counterpartyFields)"
  assume h: "orGroupMatches (foldl ?step3 st2 (take k sumsubOrGroups)) groupId = Some v \<and> v \<noteq> []"
  have "foldl ?step3 st2 sumsubOrGroups
      = foldl ?step3 (foldl ?step3 st2 (take k sumsubOrGroups)) (drop k sumsubOrGroups)"
    by (simp add: foldl_append [symmetric])
  with h have "orGroupMatches (foldl ?step3 st2 sumsubOrGroups) groupId = Some v"
    by (simp add: foldl_orGroupStep_keeps)
  then show "or_group_matches final groupId = Some v"
    unfolding fin st2 by (simp add: or_group_matches_analyze afterStep3_def)
qed

text \<open>
  C4 on two rule sets with one OR group each: step 2 resolves the counterparty's group
  \<open>or_group_0\<close> by \<open>full_name\<close>; the sumsub side's \<open>or_group_0\<close> is skipped although its
  field \<open>customer_id\<close> is in the counterparty's mandatory set and unclaimed.
\<close>

theorem shared_identifier_skips_step3_witness:
  "or_group_matches
     (analyzeFieldDifferencesWithOrGroups [''full_name''] [''customer_id'']
        (orGroups (extractRequiredFieldsWithOrLogic
           [andGroup [''full_name''], orGroup [''customer_id'', ''wallet_address'']]))
        (orGroups (extractRequiredFieldsWithOrLogic
           [andGroup [''customer_id''], orGroup [''full_name'']])) OUT)
     ''or_group_0'' = Some ''full_name'' \<and>
   filter (\<lambda>m. orGroupId m = Some ''or_group_0'')
     (field_matches
       (analyzeFieldDifferencesWithOrGroups [''full_name''] [''customer_id'']
        (orGroups (extractRequiredFieldsWithOrLogic
           [andGroup [''full_name''], orGroup [''customer_id'', ''wallet_address'']]))
        (orGroups (extractRequiredFieldsWithOrLogic
           [andGroup [''customer_id''], orGroup [''full_name'']])) OUT))
     = [\<lparr>sumsubField = ''full_name'', counterpartyField = ''full_name'',
         isExactMatch = True, isOrGroupMatch = Some True, orGroupId = Some ''or_group_0''\<rparr>]"
proof -
  let ?rA = "[andGroup [''full_name''], orGroup [''customer_id'', ''wallet_address'']]"
  let ?rB = "[andGroup [''customer_id''], orGroup [''full_name'']]"
  let ?gA = "orGroups (extractRequiredFieldsWithOrLogic ?rA)"
  let ?gB = "orGroups (extractRequiredFieldsWithOrLogic ?rB)"
  let ?st2 = "afterStep2 [''full_name''] [''customer_id''] ?gB"
  let ?final = "analyzeFieldDifferencesWithOrGroups [''full_name''] [''customer_id''] ?gA ?gB OUT"
  have nA: "0 < length ?gA" by code_simp
  have nB: "0 < length ?gB" by code_simp
  have res: "alreadyMatched ?st2 (fst (?gB ! 0))" by code_simp
  have gid: "fst (?gA ! 0) = ''or_group_0''" by code_simp
  have v: "orGroupMatches ?st2 ''or_group_0'' = Some ''full_name''" by code_simp
  have ms: "filter (\<lambda>m. orGroupId m = Some ''or_group_0'') (fieldMatches ?st2)
     = [\<lparr>sumsubField = ''full_name'', counterpartyField = ''full_name'',
         isExactMatch = True, isOrGroupMatch = Some True, orGroupId = Some ''or_group_0''\<rparr>]"
    by code_simp
  from shared_identifier_skips_step3 [OF refl refl nA nB refl res refl, of OUT]
  have "or_group_matches ?final (fst (?gA ! 0)) = orGroupMatches ?st2 (fst (?gA ! 0))"
    and "filter (\<lambda>m. orGroupId m = Some (fst (?gA ! 0))) (field_matches ?final)
           = filter (\<lambda>m. orGroupId m = Some (fst (?gA ! 0))) (fieldMatches ?st2)"
    by blast+
  then show ?thesis unfolding gid v ms by simp
qed

subsection \<open>Every resolution comes from a group\<close>

lemma explained_mono: "explained gs st \<Longrightarrow> set gs \<subseteq> set gs' \<Longrightarrow> explained gs' st"
  unfolding explained_def by blast

lemma explained_orGroupStep:
  assumes "explained groups st" "(g, fs) \<in> set groups"
  shows "explained groups (orGroupStep s st (g, fs))"
  unfolding explained_def
proof (intro allI impI)
  fix groupId v
  assume v: "orGroupMatches (orGroupStep s st (g, fs)) groupId = Some v"
  show "\<exists>orFields. (groupId, orFields) \<in> set groups \<and>
           (v \<in> set orFields \<or> v = ''date_of_birth + birthplace'' \<and> isDeuOrGroup orFields)"
  proof (cases "groupId = g")
    case False
    then have "orGroupMatches st groupId = Some v"
      using v by (simp add: orGroupMatches_orGroupStep_other)
    with assms(1) show ?thesis unfolding explained_def by blast
  next
    case True
    show ?thesis
    proof (cases "orGroupMatches st g = Some v")
      case True
      with assms(1) \<open>groupId = g\<close> show ?thesis unfolding explained_def by blast
    next
      case False
      with v \<open>groupId = g\<close> have "v \<in> set fs \<or> v = ''date_of_birth + birthplace'' \<and> isDeuOrGroup fs"
        by (auto simp: orGroupStep_def scanOrFields_find deuCombination_def resolveWith_def
            dest: find_Some_mem split: if_splits option.splits)
      with assms(2) \<open>groupId = g\<close> show ?thesis by blast
    qed
  qed
qed

lemma explained_foldl_orGroupStep:
  "explained groups st \<Longrightarrow> set gs \<subseteq> set groups \<Longrightarrow> explained groups (foldl (orGroupStep s) st gs)"
proof (induction gs arbitrary: st)
  case Nil
  then show ?case by simp
next
  case (Cons e gs)
  obtain g fs where e: "e = (g, fs)" by (cases e)
  with Cons.prems have "explained groups (orGroupStep s st e)"
    by (simp add: explained_orGroupStep)
  with Cons.IH [of "orGroupStep s st e"] Cons.prems(2) show ?case by simp
qed

lemma explained_afterStep3: "explained (gsA @ gsB) (afterStep3 sF cF gsA gsB)"
proof -
  have "explained (gsA @ gsB) (afterStep1 sF cF)" by (simp add: explained_def)
  then have "explained (gsA @ gsB) (afterStep2 sF cF gsB)"
    unfolding afterStep2_def by (rule explained_foldl_orGroupStep) simp
  then show ?thesis
    unfolding afterStep3_def by (rule explained_foldl_orGroupStep) simp
qed

text \<open>
  When no OR group of the counterparty lists the empty string as a field key, an identifier
  passes the test \<open>orGroupMatches[groupId]\<close> after step 2 exactly when step 2 recorded an
  entry for it.
\<close>

lemma explained_afterStep2: "explained gsB (afterStep2 sF cF gsB)"
proof -
  have "explained gsB (afterStep1 sF cF)" by (simp add: explained_def)
  then show ?thesis
    unfolding afterStep2_def by (rule explained_foldl_orGroupStep) simp
qed

lemma recorded_resolution_passes_test:
  assumes "\<And>g fs. (g, fs) \<in> set counterpartyOrGroups \<Longrightarrow> [] \<notin> set fs"
  shows "alreadyMatched (afterStep2 sumsubFields counterpartyFields counterpartyOrGroups) groupId
     = (orGroupMatches (afterStep2 sumsubFields counterpartyFields counterpartyOrGroups) groupId \<noteq> None)"
proof (cases "orGroupMatches (afterStep2 sumsubFields counterpartyFields counterpartyOrGroups) groupId")
  case None
  then show ?thesis by (simp add: alreadyMatched_def)
next
  case (Some v)
  with explained_afterStep2 [of counterpartyOrGroups sumsubFields counterpartyFields]
  obtain fs where "(groupId, fs) \<in> set counterpartyOrGroups"
    and "v \<in> set fs \<or> v = ''date_of_birth + birthplace'' \<and> isDeuOrGroup fs"
    unfolding explained_def by blast
  with assms have "v \<noteq> []" by auto
  with Some show ?thesis by (simp add: alreadyMatched_def)
qed

text \<open>
  C10: every entry of \<open>or_group_matches\<close> maps an identifier to a field of the declared
  field list of an OR group that carries this identifier on one of the two sides, or to
  the composite label \<open>date_of_birth + birthplace\<close>; the label is recorded only for a group
  (with this identifier) whose field list has exactly four elements and contains
  \<open>id_document_number\<close>, \<open>customer_id\<close>, \<open>date_of_birth\<close> and \<open>birthplace\<close>.
\<close>

theorem or_group_matches_from_groups:
  assumes "or_group_matches
             (analyzeFieldDifferencesWithOrGroups sumsubFields counterpartyFields
                sumsubOrGroups counterpartyOrGroups direction) groupId = Some v"
  shows "\<exists>orFields.
           ((groupId, orFields) \<in> set sumsubOrGroups \<or> (groupId, orFields) \<in> set counterpartyOrGroups) \<and>
           (v \<in> set orFields \<or>
            v = ''date_of_birth + birthplace'' \<and> length orFields = 4 \<and>
            ''id_document_number'' \<in> set orFields \<and> ''customer_id'' \<in> set orFields \<and>
            ''date_of_birth'' \<in> set orFields \<and> ''birthplace'' \<in> set orFields)"
proof -
  from assms have "orGroupMatches (afterStep3 sumsubFields counterpartyFields
                     sumsubOrGroups counterpartyOrGroups) groupId = Some v"
    by (simp add: or_group_matches_analyze)
  with explained_afterStep3 [of sumsubOrGroups counterpartyOrGroups sumsubFields counterpartyFields]
  obtain orFields where "(groupId, orFields) \<in> set (sumsubOrGroups @ counterpartyOrGroups)"
    and "v \<in> set orFields \<or> v = ''date_of_birth + birthplace'' \<and> isDeuOrGroup orFields"
    unfolding explained_def by blast
  then show ?thesis by (auto simp: isDeuOrGroup_def)
qed

text \<open>C10 on the transfer from ZAF (below its threshold) to DEU.\<close>

theorem or_group_matches_from_groups_witness:
  "\<exists>orFields.
     ((''or_group_0'', orFields) \<in> set [] \<or>
      (''or_group_0'', orFields) \<in>
         set [(''or_group_0'', [''id_document_number'', ''customer_id'', ''date_of_birth'', ''birthplace''])]) \<and>
     (''customer_id'' \<in> set orFields \<or>
      ''customer_id'' = ''date_of_birth + birthplace'' \<and> length orFields = 4 \<and>
      ''id_document_number'' \<in> set orFields \<and> ''customer_id'' \<in> set orFields \<and>
      ''date_of_birth'' \<in> set orFields \<and> ''birthplace'' \<in> set orFields)"
proof (rule or_group_matches_from_groups)
  show "or_group_matches
     (analyzeFieldDifferencesWithOrGroups [''full_name'', ''wallet_address'', ''customer_id'']
        [''full_name'', ''residential_address'', ''wallet_address''] []
        [(''or_group_0'', [''id_document_number'', ''customer_id'', ''date_of_birth'', ''birthplace''])] OUT)
     ''or_group_0'' = Some ''customer_id''"
    by code_simp
qed

subsection \<open>Steps that change nothing\<close>

lemma find_None_iff': "List.find P xs = None \<longleftrightarrow> (\<forall>x\<in>set xs. \<not> P x)"
  by (induction xs) auto

lemma orGroupStep_noop:
  assumes "\<And>f. f \<in> set fs \<Longrightarrow> \<not> claimable s st f"
    and "\<not> (isDeuOrGroup fs \<and> checkDeuCombinationMatch s fs)"
  shows "orGroupStep s st (g, fs) = st"
proof -
  have "List.find (claimable s st) fs = None" using assms(1) by (simp add: find_None_iff')
  then have "scanOrFields s g fs st = st" by (simp add: scanOrFields_find)
  moreover have "deuCombination s g fs st = st" using assms(2) by (auto simp: deuCombination_def)
  ultimately show ?thesis by (simp add: orGroupStep_def)
qed

lemma foldl_noop: "(\<And>e. e \<in> set es \<Longrightarrow> step st e = st) \<Longrightarrow> foldl step st es = st"
  by (induction es) simp_all

lemma findSemanticMatches_counterpartyField:
  "m \<in> set (findSemanticMatches sF cF) \<Longrightarrow> counterpartyField m \<in> set cF"
  by (auto simp: findSemanticMatches_def)

lemma two_element_list:
  assumes "set A = {x, y}" "distinct A" "x \<noteq> y"
  shows "A = [x, y] \<or> A = [y, x]"
proof -
  have "length A = 2" using assms by (metis distinct_card card_2_iff)
  then obtain a b where A: "A = [a, b]"
    by (metis (no_types) One_nat_def Suc_1 length_0_conv length_Suc_conv)
  with assms(1) have "{a, b} = {x, y}" by simp
  then have "a = x \<and> b = y \<or> a = y \<and> b = x" by (simp add: doubleton_eq_iff)
  with A show ?thesis by auto
qed

lemma afterStep1_two_one:
  assumes "set A = {x, y}" "distinct A" "x \<noteq> y"
  shows "afterStep1 A [x] =
     \<lparr>fieldMatches = [\<lparr>sumsubField = x, counterpartyField = x, isExactMatch = True,
                       isOrGroupMatch = None, orGroupId = None\<rparr>],
      matchedSumsubFields = [x], matchedCounterpartyFields = [x], orGroupMatches = Map.empty\<rparr>"
  using two_element_list [OF assms] assms(3)
  by (auto simp: afterStep1_def exactStep_def initMatchState_def setAdd_def)

lemma afterStep4_two_one:
  assumes A: "set A = {x, y}" "distinct A" "x \<noteq> y"
    and noY: "\<And>g fs. (g, fs) \<in> set gsB \<Longrightarrow> y \<notin> set fs"
  shows "afterStep4 A [x] gsA gsB = afterStep1 A [x]"
proof -
  let ?st = "afterStep1 A [x]"
  have ms: "matchedSumsubFields ?st = [x]" and mc: "matchedCounterpartyFields ?st = [x]"
    by (simp_all add: afterStep1_two_one [OF A])
  have step2: "afterStep2 A [x] gsB = ?st"
    unfolding afterStep2_def
  proof (rule foldl_noop)
    fix e assume e: "e \<in> set gsB"
    obtain g fs where gfs: "e = (g, fs)" by (cases e)
    with e have y: "y \<notin> set fs" by (auto dest: noY)
    have "orGroupStep (newSet A) ?st (g, fs) = ?st"
    proof (rule orGroupStep_noop)
      fix f assume "f \<in> set fs"
      with y show "\<not> claimable (newSet A) ?st f" by (auto simp: claimable_def ms A(1))
    next
      show "\<not> (isDeuOrGroup fs \<and> checkDeuCombinationMatch (newSet A) fs)"
      proof
        assume d: "isDeuOrGroup fs \<and> checkDeuCombinationMatch (newSet A) fs"
        then have "''date_of_birth'' \<in> {x, y}" "''birthplace'' \<in> {x, y}"
          by (simp_all add: checkDeuCombinationMatch_def A(1))
        then have "y = ''date_of_birth'' \<or> y = ''birthplace''" by auto
        with d have "y \<in> set fs" by (auto simp: isDeuOrGroup_def)
        with y show False by simp
      qed
    qed
    with gfs show "orGroupStep (newSet A) ?st e = ?st" by simp
  qed
  have step3: "afterStep3 A [x] gsA gsB = ?st"
    unfolding afterStep3_def step2
  proof (rule foldl_noop)
    fix e assume "e \<in> set gsA"
    obtain g fs where gfs: "e = (g, fs)" by (cases e)
    have "orGroupStep (newSet [x]) ?st (g, fs) = ?st"
      by (rule orGroupStep_noop) (auto simp: claimable_def ms checkDeuCombinationMatch_def)
    with gfs show "orGroupStep (newSet [x]) ?st e = ?st" by simp
  qed
  show ?thesis
    unfolding afterStep4_def step3
  proof (rule foldl_noop)
    fix m assume "m \<in> set (findSemanticMatches A [x])"
    then have "counterpartyField m = x" by (auto dest: findSemanticMatches_counterpartyField)
    then show "semanticStep ?st m = ?st" by (simp add: semanticStep_def mc)
  qed
qed

text \<open>
  C6: for mandatory sets A = {x, y} and B = {x} with x and y different (and y not among
  the fields of a counterparty OR group, in particular when there are no OR groups),
  direction OUT classifies as \<open>overcompliance\<close> with \<open>sumsub_sends_more\<close> = [y] and
  \<open>counterparty_sends_more\<close> empty; direction IN with the same sets classifies as
  \<open>sender_may_not_provide\<close> with \<open>missing_fields\<close> = [y], the unclaimed field of A. No
  condition on semantic aliases is needed: x is claimed in step 1, so step 4 cannot pair
  y with it.
\<close>

theorem direction_inversion:
  assumes "set A = {x, y}" and "distinct A" and "x \<noteq> y"
    and "\<forall>(groupId, orFields) \<in> set counterpartyOrGroups. y \<notin> set orFields"
  shows "determineComplianceStatus A [x] OUT = overcompliance \<and>
         sumsub_sends_more (analyzeFieldDifferencesWithOrGroups A [x] sumsubOrGroups counterpartyOrGroups OUT) = [y] \<and>
         counterparty_sends_more (analyzeFieldDifferencesWithOrGroups A [x] sumsubOrGroups counterpartyOrGroups OUT) = [] \<and>
         determineComplianceStatus A [x] IN = sender_may_not_provide \<and>
         missing_fields (analyzeFieldDifferencesWithOrGroups A [x] sumsubOrGroups counterpartyOrGroups IN) = [y]"
proof -
  have noY: "\<And>g fs. (g, fs) \<in> set counterpartyOrGroups \<Longrightarrow> y \<notin> set fs"
    using assms(4) by auto
  have st: "afterStep4 A [x] sumsubOrGroups counterpartyOrGroups =
     \<lparr>fieldMatches = [\<lparr>sumsubField = x, counterpartyField = x, isExactMatch = True,
                       isOrGroupMatch = None, orGroupId = None\<rparr>],
      matchedSumsubFields = [x], matchedCounterpartyFields = [x], orGroupMatches = Map.empty\<rparr>"
    by (simp add: afterStep4_two_one [OF assms(1-3) noY] afterStep1_two_one [OF assms(1-3)])
  have unclaimed: "filter (\<lambda>field. field \<notin> set [x]) A = [y]"
    using two_element_list [OF assms(1-3)] assms(3) by auto
  have len: "length A = 2" using two_element_list [OF assms(1-3)] by auto
  have status_out: "determineComplianceStatus A [x] OUT = overcompliance"
    using assms(3) by (auto simp: determineComplianceStatus_def Let_def list_all_iff assms(1) len)
  have status_in: "determineComplianceStatus A [x] IN = sender_may_not_provide"
    using assms(3) by (auto simp: determineComplianceStatus_def Let_def list_all_iff assms(1) len)
  show ?thesis
    using unclaimed status_out status_in
    by (simp add: analyzeFieldDifferencesWithOrGroups_def Let_def st)
qed

text \<open>C6 at x = \<open>full_name\<close>, y = \<open>wallet_address\<close>, with an OR group on either side.\<close>

theorem direction_inversion_witness:
  "determineComplianceStatus [''full_name'', ''wallet_address''] [''full_name''] OUT = overcompliance \<and>
   sumsub_sends_more (analyzeFieldDifferencesWithOrGroups [''full_name'', ''wallet_address'']
      [''full_name''] [(''or_group_0'', [''customer_id'', ''full_name''])]
      [(''or_group_0'', [''id_document_number'', ''customer_id'', ''date_of_birth'', ''birthplace''])]
      OUT) = [''wallet_address''] \<and>
   counterparty_sends_more (analyzeFieldDifferencesWithOrGroups [''full_name'', ''wallet_address'']
      [''full_name''] [(''or_group_0'', [''customer_id'', ''full_name''])]
      [(''or_group_0'', [''id_document_number'', ''customer_id'', ''date_of_birth'', ''birthplace''])]
      OUT) = [] \<and>
   determineComplianceStatus [''full_name'', ''wallet_address''] [''full_name''] IN = sender_may_not_provide \<and>
   missing_fields (analyzeFieldDifferencesWithOrGroups [''full_name'', ''wallet_address'']
      [''full_name''] [(''or_group_0'', [''customer_id'', ''full_name''])]
      [(''or_group_0'', [''id_document_number'', ''customer_id'', ''date_of_birth'', ''birthplace''])]
      IN) = [''wallet_address'']"
  by (rule direction_inversion) simp_all

subsection \<open>The combination rule\<close>

text \<open>
  The combination block changes the state only when \<open>date_of_birth\<close> and \<open>birthplace\<close>
  were both claimed before the group was reached: whenever one of them is still unclaimed
  in the consulted mandatory set, the scan takes it as a single field first.
\<close>

lemma combination_only_rematches:
  assumes "\<not> alreadyMatched st g"
    and "deuCombination s g fs (scanOrFields s g fs st) \<noteq> scanOrFields s g fs st"
  shows "''date_of_birth'' \<in> set (matchedSumsubFields st) \<and>
         ''birthplace'' \<in> set (matchedSumsubFields st)"
proof -
  from assms(2) have deu: "isDeuOrGroup fs" and chk: "checkDeuCombinationMatch s fs"
    and un: "\<not> alreadyMatched (scanOrFields s g fs st) g"
    by (auto simp: deuCombination_def split: if_splits)
  have none: "List.find (claimable s st) fs = None"
  proof (cases "List.find (claimable s st) fs")
    case (Some f)
    then have "f \<in> set fs" by (auto dest: find_Some_mem)
    with deu have "f \<noteq> []" by (rule isDeuOrGroup_nonempty_keys)
    with Some un show ?thesis
      by (simp add: scanOrFields_find alreadyMatched_def resolveWith_def)
  qed simp
  then have "\<forall>f\<in>set fs. \<not> claimable s st f" by (simp add: find_None_iff')
  moreover from deu have "''date_of_birth'' \<in> set fs" "''birthplace'' \<in> set fs"
    by (simp_all add: isDeuOrGroup_def)
  ultimately show ?thesis using chk by (auto simp: claimable_def checkDeuCombinationMatch_def)
qed

text \<open>
  C1 at a failing input. The sumsub rule set is [AND{full_name, residential_address,
  wallet_address, date_of_birth, birthplace}], the counterparty's is the shipped German
  rule set for individuals, [AND{full_name, residential_address, wallet_address},
  OR{id_document_number, customer_id, date_of_birth, birthplace}]: the counterpart's
  mandatory set contains \<open>date_of_birth\<close> and \<open>birthplace\<close> and neither
  \<open>id_document_number\<close> nor \<open>customer_id\<close>. The group is resolved by the single field
  \<open>date_of_birth\<close>, with one alternative-flagged match, not by the composite label with
  two; \<open>birthplace\<close> is reported as a field the sumsub side sends in excess.
\<close>

theorem combination_example_resolves_by_date_of_birth:
  "(let A = extractRequiredFieldsWithOrLogic
              [andGroup [''full_name'', ''residential_address'', ''wallet_address'',
                         ''date_of_birth'', ''birthplace'']];
        B = extractRequiredFieldsWithOrLogic (requirements deuIndividual);
        r = analyzeFieldDifferencesWithOrGroups (requiredFields A) (requiredFields B)
              (orGroups A) (orGroups B) OUT
    in orGroups B = [(''or_group_0'',
                      [''id_document_number'', ''customer_id'', ''date_of_birth'', ''birthplace''])] \<and>
       or_group_matches r ''or_group_0'' = Some ''date_of_birth'' \<and>
       filter (\<lambda>m. isOrGroupMatch m = Some True) (field_matches r) =
         [\<lparr>sumsubField = ''date_of_birth'', counterpartyField = ''date_of_birth'',
           isExactMatch = True, isOrGroupMatch = Some True, orGroupId = Some ''or_group_0''\<rparr>] \<and>
       sumsub_sends_more r = [''birthplace''])"
  by code_simp

text \<open>
  C2 at a failing input. Both rule sets require \<open>full_name\<close>, \<open>residential_address\<close>,
  \<open>wallet_address\<close>, \<open>date_of_birth\<close> and \<open>birthplace\<close>, and the counterparty has the
  four-field identity group as well. Step 1 matches the five fields; the combination
  block of step 2 then matches \<open>date_of_birth\<close> and \<open>birthplace\<close> a second time, so each of
  the two occurs in two entries of \<open>field_matches\<close>.
\<close>

theorem combination_example_matches_twice:
  "(let A = extractRequiredFieldsWithOrLogic
              [andGroup [''full_name'', ''residential_address'', ''wallet_address'',
                         ''date_of_birth'', ''birthplace'']];
        B = extractRequiredFieldsWithOrLogic
              [andGroup [''full_name'', ''residential_address'', ''wallet_address'',
                         ''date_of_birth'', ''birthplace''],
               orGroup [''id_document_number'', ''customer_id'', ''date_of_birth'', ''birthplace'']];
        r = analyzeFieldDifferencesWithOrGroups (requiredFields A) (requiredFields B)
              (orGroups A) (orGroups B) OUT
    in or_group_matches r ''or_group_0'' = Some ''date_of_birth + birthplace'' \<and>
       map sumsubField (field_matches r) =
         [''full_name'', ''residential_address'', ''wallet_address'', ''date_of_birth'', ''birthplace'',
          ''date_of_birth'', ''birthplace''] \<and>
       map counterpartyField (field_matches r) =
         [''full_name'', ''residential_address'', ''wallet_address'', ''date_of_birth'', ''birthplace'',
          ''date_of_birth'', ''birthplace''] \<and>
       map isOrGroupMatch (field_matches r) =
         [None, None, None, None, None, Some True, Some True] \<and>
       \<not> distinct (map sumsubField (field_matches r)) \<and>
       \<not> distinct (map counterpartyField (field_matches r)))"
  by code_simp

section \<open>The repository's tests on the model\<close>

text \<open>
  The expectations of \<^verbatim>\<open>orGroupHighlighting.test.ts\<close> and of the compliance tests that
  fix a value, evaluated on the embedding with the shipped table.
\<close>

lemma test_zaf_to_deu_highlights_customer_id:
  "(let r = projr (calculateCompliance countryConfigs (\<lambda>amount cur. amount)
              \<lparr>sumsub_vasp_country = ''ZAF'', counterparty_vasp_country = ''DEU'',
               customer_type = Individual, transfer_direction = OUT, transfer_amount = 5\<rparr>)
    in or_group_matches (field_analysis r) ''or_group_0'' = Some ''customer_id'' \<and>
       \<lparr>sumsubField = ''customer_id'', counterpartyField = ''customer_id'', isExactMatch = True,
        isOrGroupMatch = Some True, orGroupId = Some ''or_group_0''\<rparr>
         \<in> set (field_matches (field_analysis r)))"
  by code_simp

lemma test_eu_to_deu_highlights_id_document_number:
  "(let r = projr (calculateCompliance countryConfigs (\<lambda>amount cur. amount)
              \<lparr>sumsub_vasp_country = ''EU'', counterparty_vasp_country = ''DEU'',
               customer_type = Individual, transfer_direction = OUT, transfer_amount = 1500\<rparr>)
    in or_group_matches (field_analysis r) ''or_group_0'' = Some ''id_document_number'')"
  by code_simp

lemma test_eu_to_deu_below_threshold:
  "(let r = projr (calculateCompliance countryConfigs (\<lambda>amount cur. amount)
              \<lparr>sumsub_vasp_country = ''EU'', counterparty_vasp_country = ''DEU'',
               customer_type = Individual, transfer_direction = OUT, transfer_amount = 800\<rparr>)
    in or_group_matches (field_analysis r) ''or_group_0'' = Some ''customer_id'' \<and>
       ''residential_address'' \<in> set (missing_fields (field_analysis r)) \<and>
       compliance_status r = counterparty_may_request_more)"
  by code_simp

lemma test_inbound_deu_from_zaf:
  "(let r = projr (calculateCompliance countryConfigs (\<lambda>amount cur. amount)
              \<lparr>sumsub_vasp_country = ''DEU'', counterparty_vasp_country = ''ZAF'',
               customer_type = Individual, transfer_direction = IN, transfer_amount = 3000\<rparr>)
    in or_group_matches (field_analysis r) ''or_group_0'' = Some ''customer_id'' \<and>
       compliance_status r = sender_may_not_provide)"
  by code_simp

lemma test_deu_to_deu:
  "(let r = projr (calculateCompliance countryConfigs (\<lambda>amount cur. amount)
              \<lparr>sumsub_vasp_country = ''DEU'', counterparty_vasp_country = ''DEU'',
               customer_type = Individual, transfer_direction = OUT, transfer_amount = 100\<rparr>)
    in threshold_met r \<and>
       required_fields (sumsub_requirements r) = [''full_name'', ''residential_address'', ''wallet_address''] \<and>
       compliance_status r = full_match)"
  by code_simp

end
